theory Spec2Isabelle
  imports Complex_Main "HOL-Library.Char_ord" "HOL-Library.List_Lexorder" "HOL-Library.Sublist"
begin

section \<open>Data model\<close>

text \<open>
  Modules, chunks and chunk groups are JavaScript objects that refer to each other. They
  live in a store and are addressed by references. A JavaScript \<open>Set\<close> iterates in
  insertion order, so the sets \<open>_modules\<close>, \<open>_groups\<close> and \<open>_chunks\<close> are lists without
  repetition, in insertion order. Numbers are the doubles of JavaScript (section
  \<open>Numbers\<close>). Strings are lists of characters, compared as JavaScript compares them:
  position by position, by character code, a proper prefix being smaller.
\<close>

type_synonym ref = nat

section \<open>Numbers\<close>

text \<open>
  A JavaScript number is an IEEE 754 binary64 value: a finite value, an infinity or \<open>NaN\<close>.
  A finite value is given by the real number it stands for; the two zeros are one value
  (the sign of zero shows in no comparison and in no sum or product computed here). The
  finite doubles are the reals \<open>k * 2^t\<close> with \<open>\<bar>k\<bar> < 2^53\<close> and \<open>-1074 \<le> t\<close> below \<open>2^1024\<close>
  in magnitude. Every sum and product is the exact result rounded to the nearest double,
  ties to the even one, and to an infinity from \<open>2^1024\<close> on.
\<close>

datatype number = Finite real | PosInf | NegInf | NaN

text \<open>The binary exponent of a positive real: \<open>2^(expo x) \<le> x < 2^(expo x + 1)\<close>.\<close>

function expo :: "real \<Rightarrow> int" where
  "expo x =
     (if x \<le> 0 then 0
      else if 2 \<le> x then expo (x / 2) + 1
      else if x < 1 then expo (2 * x) - 1
      else 0)"
  by pat_completeness auto
termination
proof (relation "measure (\<lambda>x. nat \<bar>\<lfloor>log 2 x\<rfloor>\<bar>)", goal_cases)
  case 1
  then show ?case by simp
next
  case (2 x)
  then have x: "2 \<le> x" by simp
  then have "log 2 (x / 2) = log 2 x - 1" by (simp add: log_divide)
  moreover have "1 \<le> log 2 x" using x by (simp add: le_log_iff)
  then have "1 \<le> \<lfloor>log 2 x\<rfloor>" by (simp add: le_floor_iff)
  ultimately show ?case by simp
next
  case (3 x)
  then have x: "0 < x" "x < 1" by simp_all
  then have "log 2 (2 * x) = 1 + log 2 x" by (simp add: log_mult)
  moreover have "log 2 x < 0" using x by simp
  then have "\<lfloor>log 2 x\<rfloor> \<le> - 1" by (simp add: floor_le_iff)
  ultimately show ?case by simp
qed

declare expo.simps [simp del]

text \<open>Rounding a real to the nearest integer, a tie to the even one.\<close>

definition rne :: "real \<Rightarrow> int" where
  "rne y =
     (let f = \<lfloor>y\<rfloor>; d = y - of_int f
      in if d < 1 / 2 then f
         else if 1 / 2 < d then f + 1
         else if even f then f else f + 1)"

text \<open>The doubles around \<open>x\<close> are the multiples of \<open>2^(quantum_exp x)\<close>: 53 significant bits
  in the normal range, multiples of \<open>2^-1074\<close> below it. \<open>grid t\<close> rounds to the nearest
  multiple of \<open>2^t\<close>, \<open>rnd\<close> to the nearest double were the exponent unbounded, and
  \<open>round64\<close> adds the overflow to an infinity.\<close>

definition quantum_exp :: "real \<Rightarrow> int" where
  "quantum_exp x = max (expo \<bar>x\<bar> - 52) (- 1074)"

definition grid :: "int \<Rightarrow> real \<Rightarrow> real" where
  "grid t x = 2 powi t * of_int (rne (x / 2 powi t))"

definition rnd :: "real \<Rightarrow> real" where
  "rnd x = grid (quantum_exp x) x"

definition round64 :: "real \<Rightarrow> number" where
  "round64 x =
     (if 2 ^ 1024 \<le> \<bar>rnd x\<bar> then (if 0 < x then PosInf else NegInf) else Finite (rnd x))"

text \<open>A number of the model is a double when rounding leaves it as it is.\<close>

definition is_double :: "number \<Rightarrow> bool" where
  "is_double n = (case n of Finite x \<Rightarrow> round64 x = Finite x | _ \<Rightarrow> True)"

text \<open>The operators \<open>+\<close> and \<open>*\<close> on numbers.\<close>

fun num_add :: "number \<Rightarrow> number \<Rightarrow> number" where
  "num_add NaN _ = NaN"
| "num_add _ NaN = NaN"
| "num_add PosInf NegInf = NaN"
| "num_add NegInf PosInf = NaN"
| "num_add PosInf _ = PosInf"
| "num_add _ PosInf = PosInf"
| "num_add NegInf _ = NegInf"
| "num_add _ NegInf = NegInf"
| "num_add (Finite x) (Finite y) = round64 (x + y)"

fun num_mul :: "number \<Rightarrow> number \<Rightarrow> number" where
  "num_mul NaN _ = NaN"
| "num_mul _ NaN = NaN"
| "num_mul (Finite x) (Finite y) = round64 (x * y)"
| "num_mul (Finite x) PosInf = (if x = 0 then NaN else if 0 < x then PosInf else NegInf)"
| "num_mul (Finite x) NegInf = (if x = 0 then NaN else if 0 < x then NegInf else PosInf)"
| "num_mul PosInf (Finite y) = (if y = 0 then NaN else if 0 < y then PosInf else NegInf)"
| "num_mul NegInf (Finite y) = (if y = 0 then NaN else if 0 < y then NegInf else PosInf)"
| "num_mul PosInf PosInf = PosInf"
| "num_mul PosInf NegInf = NegInf"
| "num_mul NegInf PosInf = NegInf"
| "num_mul NegInf NegInf = PosInf"

text \<open>The comparisons \<open><=\<close> and \<open><\<close> on numbers; a comparison with \<open>NaN\<close> is false.\<close>

fun num_le :: "number \<Rightarrow> number \<Rightarrow> bool" where
  "num_le NaN _ = False"
| "num_le _ NaN = False"
| "num_le NegInf _ = True"
| "num_le _ PosInf = True"
| "num_le (Finite x) (Finite y) = (x \<le> y)"
| "num_le _ _ = False"

fun num_lt :: "number \<Rightarrow> number \<Rightarrow> bool" where
  "num_lt NaN _ = False"
| "num_lt _ NaN = False"
| "num_lt (Finite x) (Finite y) = (x < y)"
| "num_lt NegInf NegInf = False"
| "num_lt NegInf _ = True"
| "num_lt PosInf _ = False"
| "num_lt _ PosInf = True"
| "num_lt _ _ = False"

section \<open>Values and objects\<close>

datatype jsval = JUndefined | JNull | JBool bool | JNum number | JStr string

datatype error = Error string | TypeError

text \<open>\<open>Chunk\<close>: the fields \<open>name\<close>, \<open>entryModule\<close>, \<open>_modules\<close> and \<open>_groups\<close>.
  An absent name or entry module (\<open>undefined\<close>) is \<open>None\<close>.\<close>

record chunk =
  name :: "string option"
  entryModule :: "ref option"
  c_modules :: "ref list"
  c_groups :: "ref list"

text \<open>\<open>Module.usedExports\<close> is \<open>null\<close>, a boolean or an array of names;
  \<open>buildMeta.providedExports\<close> is an array of names or something that is not an array.\<close>

datatype usedExports_t = UsedNull | UsedBool bool | UsedList "string list"

datatype providedExports_t = ProvidedList "string list" | ProvidedNoArray

record buildMeta_t =
  exportsType :: "string option"
  providedExports :: providedExports_t

text \<open>\<open>Module\<close>: \<open>_chunks\<close>, \<open>used\<close> (\<open>null\<close> is \<open>None\<close>), \<open>usedExports\<close> and
  \<open>buildMeta\<close> (\<open>undefined\<close> is \<open>None\<close>). \<open>size()\<close> is abstract in \<open>Module\<close> and defined by
  its subclasses; \<open>m_size\<close> is the number it returns.\<close>

record module =
  m_chunks :: "ref list"
  m_size :: number
  used :: "bool option"
  usedExports :: usedExports_t
  buildMeta :: "buildMeta_t option"

text \<open>Modelled from the spec: the class \<open>ChunkGroup\<close> is not among the sources. The spec
  (sections 3 and 6) gives it a sequence of member chunks (\<open>chunks\<close>), a sequence of parent
  groups (\<open>parentsIterable\<close>) and an initial flag (\<open>isInitial()\<close>).\<close>

record chunkGroup =
  chunks :: "ref list"
  parents :: "ref list"
  initial :: bool

text \<open>The store. Chunk groups are allocated at the addresses below the length of
  \<open>group_heap\<close>; any other address reads as a group without chunks and parents.\<close>

record graph =
  chunk_heap :: "ref \<Rightarrow> chunk"
  module_heap :: "ref \<Rightarrow> module"
  group_heap :: "chunkGroup list"

definition group_at :: "graph \<Rightarrow> ref \<Rightarrow> chunkGroup" where
  "group_at s g =
     (if g < length (group_heap s) then group_heap s ! g
      else \<lparr>chunks = [], parents = [], initial = False\<rparr>)"

definition ChunkGroup_isInitial :: "graph \<Rightarrow> ref \<Rightarrow> bool" where
  "ChunkGroup_isInitial s g = initial (group_at s g)"

text \<open>\<open>Set.prototype.add\<close> on a set kept in insertion order.\<close>

definition set_add :: "'a list \<Rightarrow> 'a \<Rightarrow> 'a list" where
  "set_add q x = (if x \<in> set q then q else q @ [x])"

section \<open>Chunk: simple queries\<close>

text \<open>Reading a property of a \<open>SortableSet\<close> (a subclass of \<open>Set\<close>) that holds the given
  elements: \<open>size\<close> is the number of elements (a whole number far below \<open>2^53\<close>, which is
  a double as it is), a name that is no property of the object reads as \<open>undefined\<close>.\<close>

definition SortableSet_get :: "'a list \<Rightarrow> string \<Rightarrow> jsval" where
  "SortableSet_get items p =
     (if p = ''size'' then JNum (Finite (real (length items))) else JUndefined)"

definition Chunk_getNumberOfModules :: "chunk \<Rightarrow> jsval" where
  "Chunk_getNumberOfModules c = SortableSet_get (c_modules c) ''size''"

definition Chunk_getNumberOfGroups :: "chunk \<Rightarrow> jsval" where
  "Chunk_getNumberOfGroups c = SortableSet_get (c_groups c) ''siz''"

definition Chunk_isInitial :: "graph \<Rightarrow> ref \<Rightarrow> bool" where
  "Chunk_isInitial s c =
     (case c_groups (chunk_heap s c) of
        [] \<Rightarrow> False
      | chunkGroup # _ \<Rightarrow> ChunkGroup_isInitial s chunkGroup)"

definition Chunk_hasEntryModule :: "graph \<Rightarrow> ref \<Rightarrow> bool" where
  "Chunk_hasEntryModule s c = (entryModule (chunk_heap s c) \<noteq> None)"

definition Chunk_isInGroup :: "graph \<Rightarrow> ref \<Rightarrow> ref \<Rightarrow> bool" where
  "Chunk_isInGroup s c chunkGroup = (chunkGroup \<in> set (c_groups (chunk_heap s c)))"

definition Chunk_containsModule :: "graph \<Rightarrow> ref \<Rightarrow> ref \<Rightarrow> bool" where
  "Chunk_containsModule s c m = (m \<in> set (c_modules (chunk_heap s c)))"

definition Module_isInChunk :: "graph \<Rightarrow> ref \<Rightarrow> ref \<Rightarrow> bool" where
  "Module_isInChunk s m chunk = (chunk \<in> set (m_chunks (module_heap s m)))"

definition Chunk_isEmpty :: "graph \<Rightarrow> ref \<Rightarrow> bool" where
  "Chunk_isEmpty s c = (length (c_modules (chunk_heap s c)) = 0)"

section \<open>Removed accessors\<close>

datatype accessor =
  Module_entry | Module_arguments | Chunk_entry | Chunk_initial
  | Chunk_chunks | Chunk_parents | Chunk_blocks | Chunk_entrypoints

datatype access = Read | Write

text \<open>The getter and the setter of each removed property; each one throws.\<close>

fun removed_accessor :: "accessor \<Rightarrow> access \<Rightarrow> error + jsval" where
  "removed_accessor Module_arguments _ =
     Inl (Error ''Module.arguments was removed, there is no replacement.'')"
| "removed_accessor Module_entry _ =
     Inl (Error ''Module.entry was removed. Use Chunk.entryModule'')"
| "removed_accessor Chunk_entry _ =
     Inl (Error ''Chunk.entry was removed. Use hasRuntime()'')"
| "removed_accessor Chunk_initial _ =
     Inl (Error ''Chunk.initial was removed. Use isInitial()'')"
| "removed_accessor Chunk_chunks Read =
     Inl (Error ''Chunk.chunks: Use ChunkGroup.getChildren() instead'')"
| "removed_accessor Chunk_chunks Write =
     Inl (Error ''Chunk.chunks: Use ChunkGroup.add/removeChild() instead'')"
| "removed_accessor Chunk_parents Read =
     Inl (Error ''Chunk.parents: Use ChunkGroup.getParents() instead'')"
| "removed_accessor Chunk_parents Write =
     Inl (Error ''Chunk.parents: Use ChunkGroup.add/removeParent() instead'')"
| "removed_accessor Chunk_blocks Read =
     Inl (Error ''Chunk.blocks: Use ChunkGroup.getBlocks() instead'')"
| "removed_accessor Chunk_blocks Write =
     Inl (Error ''Chunk.blocks: Use ChunkGroup.add/removeBlock() instead'')"
| "removed_accessor Chunk_entrypoints Read =
     Inl (Error ''Chunk.entrypoints: Use Chunks.groupsIterable and filter by instanceof Entrypoint instead'')"
| "removed_accessor Chunk_entrypoints Write =
     Inl (Error ''Chunk.entrypoints: Use Chunks.addGroup instead'')"

text \<open>What a message names as the replacement is read off the message: the word that
  follows \<open>Use\<close>, as the message writes it; the class before the dot (a name without a
  class is a member of \<open>Chunk\<close>, whose accessors are the only ones to write one, and the two
  messages of \<open>Chunk.entrypoints\<close> write the class \<open>Chunk\<close> as \<open>Chunks\<close>); and the names
  of the operations, where \<open>add/removeChild()\<close> stands for \<open>addChild\<close> and
  \<open>removeChild\<close>. A message without the word \<open>Use\<close> names nothing.\<close>

datatype js_class = Chunk_class | ChunkGroup_class

record replacement =
  written :: string
  owner :: js_class
  operations :: "string list"

fun word_after_Use :: "string \<Rightarrow> string option" where
  "word_after_Use [] = None"
| "word_after_Use (c # cs) =
     (if prefix ''Use '' (c # cs)
      then Some (takeWhile (\<lambda>x. x \<noteq> CHR '' '') (drop 4 (c # cs)))
      else word_after_Use cs)"

definition qualifier_of :: "string \<Rightarrow> string option" where
  "qualifier_of w =
     (if CHR ''.'' \<in> set w
      then Some (rev (tl (dropWhile (\<lambda>x. x \<noteq> CHR ''.'') (rev w))))
      else None)"

definition member_of :: "string \<Rightarrow> string" where
  "member_of w =
     (let m = rev (takeWhile (\<lambda>x. x \<noteq> CHR ''.'') (rev w))
      in if suffix ''()'' m then take (length m - 2) m else m)"

definition operations_of :: "string \<Rightarrow> string list" where
  "operations_of w =
     (let m = member_of w
      in if prefix ''add/remove'' m
         then [''add'' @ drop 10 m, ''remove'' @ drop 10 m]
         else [m])"

definition class_of :: "string option \<Rightarrow> js_class option" where
  "class_of q =
     (case q of
        None \<Rightarrow> Some Chunk_class
      | Some c \<Rightarrow>
          if c = ''Chunk'' \<or> c = ''Chunks'' then Some Chunk_class
          else if c = ''ChunkGroup'' then Some ChunkGroup_class
          else None)"

definition named_replacement :: "string \<Rightarrow> replacement option" where
  "named_replacement msg =
     (case word_after_Use msg of
        None \<Rightarrow> None
      | Some w \<Rightarrow>
          (case class_of (qualifier_of w) of
             None \<Rightarrow> None
           | Some cls \<Rightarrow> Some \<lparr>written = w, owner = cls, operations = operations_of w\<rparr>))"

text \<open>The members that the source of \<open>Chunk\<close> defines and that do not throw: the fields
  the constructor sets, the methods and the accessors.\<close>

definition Chunk_members :: "string list" where
  "Chunk_members =
     [''id'', ''ids'', ''debugId'', ''name'', ''entryModule'', ''files'', ''rendered'', ''hash'',
      ''renderedHash'', ''chunkReason'', ''extraAsync'',
      ''hasRuntime'', ''isInitial'', ''hasEntryModule'', ''addModule'', ''removeModule'',
      ''setModules'', ''getNumberOfModules'', ''modulesIterable'', ''forEachModule'',
      ''mapModules'', ''addGroup'', ''removeGroup'', ''isInGroup'', ''getNumberOfGroups'',
      ''groupsIterable'', ''compareTo'', ''containsModule'', ''getModules'', ''getModulesIdent'',
      ''remove'', ''moveModule'', ''integrate'', ''split'', ''isEmpty'', ''updateHash'',
      ''canBeIntegrated'', ''addMultiplierAndOverhead'', ''modulesSize'', ''size'',
      ''integratedSize'', ''sortModules'', ''sortItems'', ''getChunkMaps'',
      ''getChunkModuleMaps'', ''hasModuleInGraph'', ''toString'', ''modules'']"

text \<open>The operations of \<open>ChunkGroup\<close> that the messages name. \<open>ChunkGroup\<close> is not among
  the sources, and the operations that section 6 of the spec lists for it are those the
  chunk algorithms consume, so whether the class defines the named ones is not known here:
  the members of \<open>ChunkGroup\<close> are an argument of \<open>supported\<close>.\<close>

definition ChunkGroup_named :: "string list" where
  "ChunkGroup_named =
     [''getChildren'', ''addChild'', ''removeChild'', ''getParents'', ''addParent'',
      ''removeParent'', ''getBlocks'', ''addBlock'', ''removeBlock'']"

definition supported :: "string list \<Rightarrow> replacement \<Rightarrow> bool" where
  "supported chunkGroupMembers r =
     (set (operations r)
        \<subseteq> set (case owner r of Chunk_class \<Rightarrow> Chunk_members
                               | ChunkGroup_class \<Rightarrow> chunkGroupMembers))"

section \<open>Module: export usage\<close>

text \<open>\<open>Array.prototype.indexOf\<close>: the first position of the element, or \<open>-1\<close>.\<close>

definition indexOf :: "'a list \<Rightarrow> 'a \<Rightarrow> int" where
  "indexOf xs x = (if x \<in> set xs then int (length (takeWhile (\<lambda>y. y \<noteq> x) xs)) else - 1)"

text \<open>\<open>isProvided\<close> reads \<open>this.buildMeta.providedExports\<close>; on a module whose
  \<open>buildMeta\<close> is \<open>undefined\<close> that read throws a \<open>TypeError\<close>.\<close>

definition Module_isProvided :: "module \<Rightarrow> string \<Rightarrow> error + jsval" where
  "Module_isProvided this exportName =
     (case buildMeta this of
        None \<Rightarrow> Inl TypeError
      | Some bm \<Rightarrow>
          (case providedExports bm of
             ProvidedNoArray \<Rightarrow> Inr JNull
           | ProvidedList ps \<Rightarrow> Inr (JBool (exportName \<in> set ps))))"

text \<open>\<open>isUsed\<close>. The argument is \<open>None\<close> when the caller passes no export name. The
  function \<open>Template.numberToIdentifer\<close> is not among the sources; \<open>isUsed\<close> takes it as
  its first argument.\<close>

definition Module_isUsed :: "(nat \<Rightarrow> string) \<Rightarrow> module \<Rightarrow> string option \<Rightarrow> error + jsval" where
  "Module_isUsed numberToIdentifer this exportName =
     (case exportName of
        None \<Rightarrow> Inr (JBool (used this \<noteq> Some False))
      | Some e \<Rightarrow>
          if e = [] then Inr (JBool (used this \<noteq> Some False))
          else if used this = None \<or> usedExports this = UsedNull then Inr (JStr e)
          else if used this \<noteq> Some True then Inr (JBool False)
          else
            (case usedExports this of
               UsedNull \<Rightarrow> Inr (JStr e)
             | UsedBool False \<Rightarrow> Inr (JBool False)
             | UsedBool True \<Rightarrow> Inr (JStr e)
             | UsedList ue \<Rightarrow>
                 let idx = indexOf ue e in
                 if idx < 0 then Inr (JBool False)
                 else
                   (case Module_isProvided this e of
                      Inl err \<Rightarrow> Inl err
                    | Inr p \<Rightarrow>
                        if p = JBool True then
                          (case buildMeta this of
                             None \<Rightarrow> Inl TypeError
                           | Some bm \<Rightarrow>
                               if exportsType bm = Some ''namespace''
                               then Inr (JStr (numberToIdentifer (nat idx)))
                               else if exportsType bm = Some ''named'' \<and> ''default'' \<notin> set ue
                               then Inr (JStr (numberToIdentifer (nat idx)))
                               else Inr (JStr e))
                        else Inr (JStr e))))"

text \<open>Modelled from the spec: \<open>Template.numberToIdentifer\<close> is not among the sources, and
  the spec only says that it yields a short positional identifier. The numbering below
  (\<open>a\<close> to \<open>z\<close>, \<open>A\<close> to \<open>Z\<close>, then an underscore and a decimal number) is one such scheme;
  it is used only to run \<open>isUsed\<close> at a concrete input.\<close>

fun decimal :: "nat \<Rightarrow> string" where
  "decimal n =
     (if n < 10 then [''0123456789'' ! n] else decimal (n div 10) @ [''0123456789'' ! (n mod 10)])"

declare decimal.simps [simp del]

definition numberToIdentifer :: "nat \<Rightarrow> string" where
  "numberToIdentifer n =
     (if n < 26 then [''abcdefghijklmnopqrstuvwxyz'' ! n]
      else if n < 52 then [''ABCDEFGHIJKLMNOPQRSTUVWXYZ'' ! (n - 26)]
      else CHR ''_'' # decimal (n - 52))"

section \<open>Traversals of the chunk group graph\<close>

text \<open>Both traversals iterate over a \<open>Set\<close> used as a queue while adding to it: the
  iteration visits the elements in insertion order, the added ones included. The queue is
  a list and the iteration an index into it. The measure of the recursion is the number of
  groups that can still be added plus the number of queued groups not yet visited.\<close>

lemma set_foldl_set_add: "set (foldl set_add q ps) = set q \<union> set ps"
  by (induction ps arbitrary: q) (auto simp: set_add_def)

lemma length_foldl_set_add:
  "length (foldl set_add q ps) = length q + card (set ps - set q)"
proof (induction ps arbitrary: q)
  case Nil
  then show ?case by simp
next
  case (Cons p ps)
  show ?case
  proof (cases "p \<in> set q")
    case True
    then have "set (p # ps) - set q = set ps - set q" by auto
    with True Cons show ?thesis by (simp add: set_add_def)
  next
    case False
    have "set (p # ps) - set q = insert p (set ps - set (q @ [p]))" using False by auto
    moreover have "p \<notin> set ps - set (q @ [p])" by simp
    ultimately have "card (set (p # ps) - set q) = Suc (card (set ps - set (q @ [p])))"
      by (simp del: set_append)
    with False Cons[of "q @ [p]"] show ?thesis by (simp add: set_add_def)
  qed
qed

lemma queue_measure:
  assumes "set ps \<subseteq> U" "finite U" "i < length q"
  shows "card (U - set (foldl set_add q ps)) + (length (foldl set_add q ps) - Suc i)
         < card (U - set q) + (length q - i)"
proof -
  have fin: "finite (U - set q)" using assms(2) by simp
  have sub: "set ps - set q \<subseteq> U - set q" using assms(1) by auto
  have "U - set (foldl set_add q ps) = (U - set q) - (set ps - set q)"
    by (auto simp: set_foldl_set_add)
  then have "card (U - set (foldl set_add q ps)) = card (U - set q) - card (set ps - set q)"
    using card_Diff_subset[of "set ps - set q" "U - set q"] sub by simp
  moreover have "card (set ps - set q) \<le> card (U - set q)"
    using card_mono[OF fin sub] .
  ultimately show ?thesis using assms(3) by (simp add: length_foldl_set_add)
qed

text \<open>\<open>Module.isAccessibleInChunkGroup\<close>: the loop labelled \<open>queueFor\<close>. As in the
  source, steps 2 and 3 read \<open>chunkGroup\<close>, the argument of the method, and not \<open>cg\<close>,
  the group being visited. \<open>ignoreChunk\<close> is \<open>None\<close> when the caller passes none.\<close>

function isAccessibleInChunkGroup_queueFor ::
  "graph \<Rightarrow> ref \<Rightarrow> ref option \<Rightarrow> ref \<Rightarrow> ref list \<Rightarrow> nat \<Rightarrow> bool" where
  "isAccessibleInChunkGroup_queueFor s this ignoreChunk chunkGroup queue i =
     (if i < length queue then
        (if list_ex (\<lambda>chunk. Some chunk \<noteq> ignoreChunk \<and> Chunk_containsModule s chunk this)
              (chunks (group_at s (queue ! i)))
         then isAccessibleInChunkGroup_queueFor s this ignoreChunk chunkGroup queue (Suc i)
         else if ChunkGroup_isInitial s chunkGroup then False
         else isAccessibleInChunkGroup_queueFor s this ignoreChunk chunkGroup
                (foldl set_add queue (parents (group_at s chunkGroup))) (Suc i))
      else True)"
  by pat_completeness auto
termination
proof (relation "measure (\<lambda>(s, this, ignoreChunk, chunkGroup, queue, i).
          card (set (parents (group_at s chunkGroup)) - set queue) + (length queue - i))",
       goal_cases)
  case 1
  then show ?case by simp
next
  case (2 s this ignoreChunk chunkGroup queue i)
  then show ?case by simp
next
  case (3 s this ignoreChunk chunkGroup queue i)
  then show ?case
    using queue_measure[of "parents (group_at s chunkGroup)" "set (parents (group_at s chunkGroup))" i queue]
    by simp
qed

definition Module_isAccessibleInChunkGroup :: "graph \<Rightarrow> ref \<Rightarrow> ref \<Rightarrow> ref option \<Rightarrow> bool" where
  "Module_isAccessibleInChunkGroup s this chunkGroup ignoreChunk =
     isAccessibleInChunkGroup_queueFor s this ignoreChunk chunkGroup [chunkGroup] 0"

definition all_parents :: "graph \<Rightarrow> ref set" where
  "all_parents s = (\<Union>g \<in> set (group_heap s). set (parents g))"

lemma parents_in_all_parents: "set (parents (group_at s g)) \<subseteq> all_parents s"
proof (cases "g < length (group_heap s)")
  case True
  then have "group_heap s ! g \<in> set (group_heap s)" by simp
  then have "set (parents (group_heap s ! g)) \<subseteq> all_parents s"
    unfolding all_parents_def by blast
  then show ?thesis using True by (simp add: group_at_def)
next
  case False
  then show ?thesis by (simp add: group_at_def)
qed

lemma finite_all_parents: "finite (all_parents s)"
  by (simp add: all_parents_def)

text \<open>The traversal as the spec words it (claim C1): the initial flag and the parents are
  those of the group being visited. It is compared with the source's loop above.\<close>

function isAccessibleInChunkGroup_spec_loop ::
  "graph \<Rightarrow> ref \<Rightarrow> ref option \<Rightarrow> ref list \<Rightarrow> nat \<Rightarrow> bool" where
  "isAccessibleInChunkGroup_spec_loop s this ignoreChunk queue i =
     (if i < length queue then
        (if list_ex (\<lambda>chunk. Some chunk \<noteq> ignoreChunk \<and> Chunk_containsModule s chunk this)
              (chunks (group_at s (queue ! i)))
         then isAccessibleInChunkGroup_spec_loop s this ignoreChunk queue (Suc i)
         else if ChunkGroup_isInitial s (queue ! i) then False
         else isAccessibleInChunkGroup_spec_loop s this ignoreChunk
                (foldl set_add queue (parents (group_at s (queue ! i)))) (Suc i))
      else True)"
  by pat_completeness auto
termination
proof (relation "measure (\<lambda>(s, this, ignoreChunk, queue, i).
          card (all_parents s - set queue) + (length queue - i))", goal_cases)
  case 1
  then show ?case by simp
next
  case (2 s this ignoreChunk queue i)
  then show ?case by simp
next
  case (3 s this ignoreChunk queue i)
  then show ?case
    using queue_measure[OF parents_in_all_parents finite_all_parents, of i queue s "queue ! i"]
    by simp
qed

definition isAccessibleInChunkGroup_spec :: "graph \<Rightarrow> ref \<Rightarrow> ref \<Rightarrow> ref option \<Rightarrow> bool" where
  "isAccessibleInChunkGroup_spec s this chunkGroup ignoreChunk =
     isAccessibleInChunkGroup_spec_loop s this ignoreChunk [chunkGroup] 0"

text \<open>\<open>isAvailable\<close>, the local function of \<open>Chunk.canBeIntegrated\<close>.\<close>

function isAvailable_loop :: "graph \<Rightarrow> ref \<Rightarrow> ref list \<Rightarrow> nat \<Rightarrow> bool" where
  "isAvailable_loop s a queue i =
     (if i < length queue then
        (if Chunk_isInGroup s a (queue ! i)
         then isAvailable_loop s a queue (Suc i)
         else if ChunkGroup_isInitial s (queue ! i) then False
         else isAvailable_loop s a
                (foldl set_add queue (parents (group_at s (queue ! i)))) (Suc i))
      else True)"
  by pat_completeness auto
termination
proof (relation "measure (\<lambda>(s, a, queue, i).
          card (all_parents s - set queue) + (length queue - i))", goal_cases)
  case 1
  then show ?case by simp
next
  case (2 s a queue i)
  then show ?case by simp
next
  case (3 s a queue i)
  then show ?case
    using queue_measure[OF parents_in_all_parents finite_all_parents, of i queue s "queue ! i"]
    by simp
qed

definition isAvailable :: "graph \<Rightarrow> ref \<Rightarrow> ref \<Rightarrow> bool" where
  "isAvailable s a b = isAvailable_loop s a (foldl set_add [] (c_groups (chunk_heap s b))) 0"

definition Chunk_canBeIntegrated :: "graph \<Rightarrow> ref \<Rightarrow> ref \<Rightarrow> bool" where
  "Chunk_canBeIntegrated s this otherChunk =
     (if Chunk_isInitial s this \<noteq> Chunk_isInitial s otherChunk then
        (if Chunk_isInitial s this then isAvailable s this otherChunk
         else if Chunk_isInitial s otherChunk then isAvailable s otherChunk this
         else False)
      else if Chunk_hasEntryModule s this \<or> Chunk_hasEntryModule s otherChunk then False
      else True)"

declare isAccessibleInChunkGroup_queueFor.simps [simp del]
  isAccessibleInChunkGroup_spec_loop.simps [simp del] isAvailable_loop.simps [simp del]

section \<open>Mutation of the graph\<close>

text \<open>Assignments to one field of one object of the store. A write to a chunk group
  outside the allocated addresses changes nothing.\<close>

definition set_m_chunks :: "graph \<Rightarrow> ref \<Rightarrow> ref list \<Rightarrow> graph" where
  "set_m_chunks s m cs = s\<lparr>module_heap := (module_heap s)(m := (module_heap s m)\<lparr>m_chunks := cs\<rparr>)\<rparr>"

definition set_c_modules :: "graph \<Rightarrow> ref \<Rightarrow> ref list \<Rightarrow> graph" where
  "set_c_modules s c ms = s\<lparr>chunk_heap := (chunk_heap s)(c := (chunk_heap s c)\<lparr>c_modules := ms\<rparr>)\<rparr>"

definition set_c_groups :: "graph \<Rightarrow> ref \<Rightarrow> ref list \<Rightarrow> graph" where
  "set_c_groups s c gs = s\<lparr>chunk_heap := (chunk_heap s)(c := (chunk_heap s c)\<lparr>c_groups := gs\<rparr>)\<rparr>"

definition set_name :: "graph \<Rightarrow> ref \<Rightarrow> string option \<Rightarrow> graph" where
  "set_name s c n = s\<lparr>chunk_heap := (chunk_heap s)(c := (chunk_heap s c)\<lparr>name := n\<rparr>)\<rparr>"

definition set_g_chunks :: "graph \<Rightarrow> ref \<Rightarrow> ref list \<Rightarrow> graph" where
  "set_g_chunks s g cs = s\<lparr>group_heap := (group_heap s)[g := (group_at s g)\<lparr>chunks := cs\<rparr>]\<rparr>"

text \<open>\<open>Module.removeChunk\<close> and \<open>Chunk.removeModule\<close> call each other; each call that goes
  on has deleted one side of the edge first, which is the measure of the recursion.\<close>

function Module_removeChunk :: "graph \<Rightarrow> ref \<Rightarrow> ref \<Rightarrow> bool \<times> graph"
  and Chunk_removeModule :: "graph \<Rightarrow> ref \<Rightarrow> ref \<Rightarrow> bool \<times> graph" where
  "Module_removeChunk s this chunk =
     (if chunk \<in> set (m_chunks (module_heap s this)) then
        (True, snd (Chunk_removeModule
           (set_m_chunks s this (removeAll chunk (m_chunks (module_heap s this)))) chunk this))
      else (False, s))"
| "Chunk_removeModule s this modul =
     (if modul \<in> set (c_modules (chunk_heap s this)) then
        (True, snd (Module_removeChunk
           (set_c_modules s this (removeAll modul (c_modules (chunk_heap s this)))) modul this))
      else (False, s))"
  by pat_completeness auto
termination
proof (relation "measure (\<lambda>x. case x of
          Inl (s, m, c) \<Rightarrow> (if c \<in> set (m_chunks (module_heap s m)) then 1 else 0)
                           + (if m \<in> set (c_modules (chunk_heap s c)) then 1 else 0)
        | Inr (s, c, m) \<Rightarrow> (if c \<in> set (m_chunks (module_heap s m)) then 1 else 0)
                           + (if m \<in> set (c_modules (chunk_heap s c)) then 1 else (0::nat)))",
       goal_cases)
  case 1
  then show ?case by simp
next
  case (2 s this chunk)
  then show ?case by (simp add: set_m_chunks_def)
next
  case (3 s this modul)
  then show ?case by (simp add: set_c_modules_def)
qed

declare Module_removeChunk.simps [simp del] Chunk_removeModule.simps [simp del]

text \<open>\<open>Module.addChunk\<close>, \<open>Chunk.addModule\<close> and \<open>Chunk.addGroup\<close> add to one set and
  return whether the set changed.\<close>

definition Module_addChunk :: "graph \<Rightarrow> ref \<Rightarrow> ref \<Rightarrow> bool \<times> graph" where
  "Module_addChunk s this chunk =
     (if chunk \<in> set (m_chunks (module_heap s this)) then (False, s)
      else (True, set_m_chunks s this (set_add (m_chunks (module_heap s this)) chunk)))"

definition Chunk_addModule :: "graph \<Rightarrow> ref \<Rightarrow> ref \<Rightarrow> bool \<times> graph" where
  "Chunk_addModule s this modul =
     (if modul \<notin> set (c_modules (chunk_heap s this))
      then (True, set_c_modules s this (set_add (c_modules (chunk_heap s this)) modul))
      else (False, s))"

definition Chunk_addGroup :: "graph \<Rightarrow> ref \<Rightarrow> ref \<Rightarrow> bool \<times> graph" where
  "Chunk_addGroup s this chunkGroup =
     (if chunkGroup \<in> set (c_groups (chunk_heap s this)) then (False, s)
      else (True, set_c_groups s this (set_add (c_groups (chunk_heap s this)) chunkGroup)))"

text \<open>Modelled from the spec: the module \<open>GraphHelpers\<close> is not among the sources. By
  section 4.5 of the spec it is the entry point for establishing and removing an edge
  between a module and a chunk and never lets one side of the edge be updated without the
  other: \<open>connectChunkAndModule\<close> adds the chunk to the module and, when that changed the
  module, the module to the chunk; \<open>disconnectChunkAndModule\<close> removes the edge on both
  sides.\<close>

definition connectChunkAndModule :: "graph \<Rightarrow> ref \<Rightarrow> ref \<Rightarrow> graph" where
  "connectChunkAndModule s chunk modul =
     (case Module_addChunk s modul chunk of
        (True, s') \<Rightarrow> snd (Chunk_addModule s' chunk modul)
      | (False, s') \<Rightarrow> s')"

definition disconnectChunkAndModule :: "graph \<Rightarrow> ref \<Rightarrow> ref \<Rightarrow> graph" where
  "disconnectChunkAndModule s chunk modul =
     snd (Module_removeChunk (snd (Chunk_removeModule s chunk modul)) modul chunk)"

text \<open>\<open>Chunk.moveModule\<close>: disconnect the module from this chunk, connect it to the
  other one.\<close>

definition Chunk_moveModule :: "graph \<Rightarrow> ref \<Rightarrow> ref \<Rightarrow> ref \<Rightarrow> graph" where
  "Chunk_moveModule s this modul otherChunk =
     connectChunkAndModule (disconnectChunkAndModule s this modul) otherChunk modul"

text \<open>\<open>Array.prototype.splice(i, 1)\<close>.\<close>

definition splice1 :: "'a list \<Rightarrow> nat \<Rightarrow> 'a list" where
  "splice1 xs i = take i xs @ drop (Suc i) xs"

text \<open>Modelled from the spec: the methods \<open>replaceChunk\<close> and \<open>removeChunk\<close> of
  \<open>ChunkGroup\<close> are not among the sources. By sections 4.3 and 6 of the spec
  \<open>replaceChunk(old, new)\<close> repoints the group from the old chunk to the new one in place:
  the new chunk takes the position of the old one and is kept once; a group that does not
  hold the old chunk is left as it is. \<open>removeChunk(chunk)\<close> takes the chunk out of the
  group's chunks. Both act on the group only.\<close>

definition replaceChunk_list :: "ref list \<Rightarrow> ref \<Rightarrow> ref \<Rightarrow> ref list" where
  "replaceChunk_list cs oldChunk newChunk =
     (let oldIdx = indexOf cs oldChunk; newIdx = indexOf cs newChunk in
      if oldIdx < 0 then cs
      else if newIdx < 0 then cs[nat oldIdx := newChunk]
      else if newIdx < oldIdx then splice1 cs (nat oldIdx)
      else if newIdx \<noteq> oldIdx then splice1 (cs[nat oldIdx := newChunk]) (nat newIdx)
      else cs)"

definition ChunkGroup_replaceChunk :: "graph \<Rightarrow> ref \<Rightarrow> ref \<Rightarrow> ref \<Rightarrow> graph" where
  "ChunkGroup_replaceChunk s this oldChunk newChunk =
     set_g_chunks s this (replaceChunk_list (chunks (group_at s this)) oldChunk newChunk)"

definition ChunkGroup_removeChunk :: "graph \<Rightarrow> ref \<Rightarrow> ref \<Rightarrow> graph" where
  "ChunkGroup_removeChunk s this chunk =
     (let idx = indexOf (chunks (group_at s this)) chunk in
      if idx \<ge> 0 then set_g_chunks s this (splice1 (chunks (group_at s this)) (nat idx))
      else s)"

text \<open>The reconciliation of the names at the end of \<open>integrate\<close>; a name is truthy when
  it is a string that is not empty.\<close>

definition integrate_name :: "string option \<Rightarrow> string option \<Rightarrow> string option" where
  "integrate_name this_name other_name =
     (case (this_name, other_name) of
        (Some n1, Some n2) \<Rightarrow>
          if n1 \<noteq> [] \<and> n2 \<noteq> [] then
            (if length n1 \<noteq> length n2
             then (if length n1 < length n2 then Some n1 else Some n2)
             else (if n1 < n2 then Some n1 else Some n2))
          else this_name
      | _ \<Rightarrow> this_name)"

text \<open>The body of the loop over \<open>otherChunk._groups\<close> in \<open>integrate\<close>.\<close>

definition integrate_group_step :: "ref \<Rightarrow> ref \<Rightarrow> ref \<Rightarrow> graph \<Rightarrow> graph" where
  "integrate_group_step this otherChunk chunkGroup st =
     snd (Chunk_addGroup (ChunkGroup_replaceChunk st chunkGroup otherChunk this) this chunkGroup)"

text \<open>\<open>Chunk.integrate\<close>. The first loop runs over a copy of the other chunk's modules
  (\<open>Array.from\<close>). The second loop runs over the other chunk's own group set; the loop
  body writes to the groups and to the group set of this chunk, which is another set when
  the chunks differ and is not changed by \<open>addGroup\<close> when they are the same, so the
  groups visited are those the set held when the loop began.\<close>

definition Chunk_integrate :: "graph \<Rightarrow> ref \<Rightarrow> ref \<Rightarrow> bool \<times> graph" where
  "Chunk_integrate s this otherChunk =
     (if \<not> Chunk_canBeIntegrated s this otherChunk then (False, s)
      else
        let s1 = fold (\<lambda>modul st. Chunk_moveModule st otherChunk modul this)
                   (c_modules (chunk_heap s otherChunk)) s;
            s2 = set_c_modules s1 otherChunk [];
            s3 = fold (integrate_group_step this otherChunk) (c_groups (chunk_heap s2 otherChunk)) s2;
            s4 = set_c_groups s3 otherChunk [];
            s5 = set_name s4 this
                   (integrate_name (name (chunk_heap s4 this)) (name (chunk_heap s4 otherChunk)))
        in (True, s5))"

text \<open>The body of the loop over the modules in \<open>remove\<close>.\<close>

definition remove_module_step :: "ref \<Rightarrow> ref \<Rightarrow> graph \<Rightarrow> graph" where
  "remove_module_step this modul st = snd (Module_removeChunk st modul this)"

text \<open>\<open>Chunk.remove\<close>. The first loop runs over a copy of the modules; the second over
  the chunk's group set, which the loop does not write.\<close>

definition Chunk_remove :: "graph \<Rightarrow> ref \<Rightarrow> graph" where
  "Chunk_remove s this =
     (let s1 = fold (remove_module_step this) (c_modules (chunk_heap s this)) s
      in fold (\<lambda>chunkGroup st. ChunkGroup_removeChunk st chunkGroup this)
           (c_groups (chunk_heap s1 this)) s1)"

section \<open>Chunk: the size estimate\<close>

text \<open>The fields of \<open>options\<close> that the estimate reads. \<open>chunkOverhead\<close> is \<open>None\<close> when
  \<open>typeof options.chunkOverhead\<close> is not \<open>"number"\<close> (\<open>NaN\<close> and the infinities are numbers),
  \<open>entryChunkMultiplicator\<close> is \<open>None\<close> when the field is absent. A multiplier and a
  module size that are not numbers (\<open>*\<close> and \<open>+=\<close> would convert them) are outside the
  model.\<close>

record options =
  chunkOverhead :: "number option"
  entryChunkMultiplicator :: "number option"

text \<open>The two constants of \<open>addMultiplierAndOverhead\<close>. \<open>x || 10\<close> is \<open>10\<close> when \<open>x\<close> is
  absent, \<open>0\<close> or \<open>NaN\<close>, the falsy numbers.\<close>

definition overhead :: "options \<Rightarrow> number" where
  "overhead opts = (case chunkOverhead opts of Some x \<Rightarrow> x | None \<Rightarrow> Finite 10000)"

definition multiplicator :: "graph \<Rightarrow> ref \<Rightarrow> options \<Rightarrow> number" where
  "multiplicator s this opts =
     (if Chunk_isInitial s this
      then (case entryChunkMultiplicator opts of
              Some x \<Rightarrow> if x = Finite 0 \<or> x = NaN then Finite 10 else x
            | None \<Rightarrow> Finite 10)
      else Finite 1)"

definition Chunk_addMultiplierAndOverhead ::
  "graph \<Rightarrow> ref \<Rightarrow> number \<Rightarrow> options \<Rightarrow> number" where
  "Chunk_addMultiplierAndOverhead s this sz opts =
     num_add (num_mul sz (multiplicator s this opts)) (overhead opts)"

text \<open>\<open>getModulesSize\<close> sums \<open>size()\<close> over the set, starting at \<open>0\<close>; \<open>modulesSize\<close> reads
  it through the memo cache of the set, which is not modelled: the value is recomputed at
  each call.\<close>

definition getModulesSize :: "graph \<Rightarrow> ref list \<Rightarrow> number" where
  "getModulesSize s ms =
     fold (\<lambda>modul count. num_add count (m_size (module_heap s modul))) ms (Finite 0)"

definition Chunk_modulesSize :: "graph \<Rightarrow> ref \<Rightarrow> number" where
  "Chunk_modulesSize s this = getModulesSize s (c_modules (chunk_heap s this))"

definition Chunk_size :: "graph \<Rightarrow> ref \<Rightarrow> options \<Rightarrow> number" where
  "Chunk_size s this opts = Chunk_addMultiplierAndOverhead s this (Chunk_modulesSize s this) opts"

definition Chunk_integratedSize :: "graph \<Rightarrow> ref \<Rightarrow> ref \<Rightarrow> options \<Rightarrow> jsval" where
  "Chunk_integratedSize s this otherChunk opts =
     (if \<not> Chunk_canBeIntegrated s this otherChunk then JBool False
      else
        let integratedModulesSize =
              fold (\<lambda>otherModule acc.
                      if otherModule \<notin> set (c_modules (chunk_heap s this))
                      then num_add acc (m_size (module_heap s otherModule)) else acc)
                (c_modules (chunk_heap s otherChunk)) (Chunk_modulesSize s this)
        in JNum (Chunk_addMultiplierAndOverhead s this integratedModulesSize opts))"

text \<open>The comparison \<open>v >= y\<close> of JavaScript for a number \<open>y\<close>: \<open>false\<close> and \<open>null\<close>
  convert to \<open>0\<close> and \<open>true\<close> to \<open>1\<close>; \<open>undefined\<close> converts to \<open>NaN\<close>, which compares
  false. A string operand would be converted too; \<open>integratedSize\<close> returns a number or
  \<open>false\<close>, never a string.\<close>

definition js_ge :: "jsval \<Rightarrow> number \<Rightarrow> bool" where
  "js_ge v y =
     (case v of
        JNum x \<Rightarrow> num_le y x
      | JBool b \<Rightarrow> num_le y (Finite (if b then 1 else 0))
      | JNull \<Rightarrow> num_le y (Finite 0)
      | _ \<Rightarrow> False)"

section \<open>Membership on the side of the group, constructors and sample graphs\<close>

text \<open>A chunk group holds a chunk when the chunk is among the group's \<open>chunks\<close>.\<close>

definition group_has_chunk :: "graph \<Rightarrow> ref \<Rightarrow> ref \<Rightarrow> bool" where
  "group_has_chunk s g c = (c \<in> set (chunks (group_at s g)))"

text \<open>The two states of a group during the second loop of \<open>integrate\<close>: it still holds the
  other chunk (once), or it holds this chunk in its place.\<close>

definition owns_old :: "ref \<Rightarrow> graph \<Rightarrow> ref \<Rightarrow> bool" where
  "owns_old b s g =
     (g < length (group_heap s) \<and> b \<in> set (chunks (group_at s g)) \<and>
      distinct (chunks (group_at s g)))"

definition owns_new :: "ref \<Rightarrow> ref \<Rightarrow> graph \<Rightarrow> ref \<Rightarrow> bool" where
  "owns_new a b s g = (a \<in> set (chunks (group_at s g)) \<and> b \<notin> set (chunks (group_at s g)))"

text \<open>The constructors of \<open>Chunk\<close> and \<open>Module\<close>, as far as the fields of the model go.\<close>

definition new_chunk :: "string option \<Rightarrow> chunk" where
  "new_chunk nm = \<lparr>name = nm, entryModule = None, c_modules = [], c_groups = []\<rparr>"

definition new_module :: "number \<Rightarrow> module" where
  "new_module sz =
     \<lparr>m_chunks = [], m_size = sz, used = None, usedExports = UsedNull, buildMeta = None\<rparr>"

text \<open>A graph with an entry point (group 0, initial, chunks 0, 2 and 3) and an async group
  below it (group 1, chunk 1). Chunk 0 has the entry module 0; module 2 is in the chunks 2
  and 3. Every edge is recorded on both of its sides.\<close>

definition sample_graph :: graph where
  "sample_graph =
     \<lparr>chunk_heap = (\<lambda>_. new_chunk None)
        (0 := \<lparr>name = Some ''main'', entryModule = Some 0, c_modules = [0], c_groups = [0]\<rparr>,
         1 := \<lparr>name = Some ''async'', entryModule = None, c_modules = [1], c_groups = [1]\<rparr>,
         2 := \<lparr>name = Some ''vendor'', entryModule = None, c_modules = [2], c_groups = [0]\<rparr>,
         3 := \<lparr>name = Some ''common'', entryModule = None, c_modules = [3, 2], c_groups = [0]\<rparr>),
      module_heap = (\<lambda>_. new_module (Finite 0))
        (0 := (new_module (Finite 100))\<lparr>m_chunks := [0]\<rparr>,
         1 := (new_module (Finite 50))\<lparr>m_chunks := [1]\<rparr>,
         2 := (new_module (Finite 70))\<lparr>m_chunks := [2, 3]\<rparr>,
         3 := (new_module (Finite 30))\<lparr>m_chunks := [3]\<rparr>),
      group_heap = [\<lparr>chunks = [0, 2, 3], parents = [], initial = True\<rparr>,
                    \<lparr>chunks = [1], parents = [0], initial = False\<rparr>]\<rparr>"

text \<open>A chunk that was added to an async group (group 0) first and to an entry point
  (group 1) second.\<close>

definition two_groups_graph :: graph where
  "two_groups_graph =
     \<lparr>chunk_heap = (\<lambda>_. new_chunk None)
        (0 := \<lparr>name = Some ''shared'', entryModule = None, c_modules = [], c_groups = [0, 1]\<rparr>),
      module_heap = (\<lambda>_. new_module (Finite 0)),
      group_heap = [\<lparr>chunks = [0], parents = [1], initial = False\<rparr>,
                    \<lparr>chunks = [0], parents = [], initial = True\<rparr>]\<rparr>"

text \<open>The module of the scenario of section 8 of the spec.\<close>

definition namespace_module :: module where
  "namespace_module =
     \<lparr>m_chunks = [], m_size = Finite 0, used = Some True, usedExports = UsedList [''b''],
      buildMeta = Some \<lparr>exportsType = Some ''namespace'',
                        providedExports = ProvidedList [''a'', ''b'']\<rparr>\<rparr>"

text \<open>The sample graph after \<open>c1.addModule(m0)\<close>: chunk 1 lists module 0, module 0 does
  not list chunk 1.\<close>

definition lopsided_graph :: graph where
  "lopsided_graph = snd (Chunk_addModule sample_graph 1 0)"

text \<open>The sample graph with a module 2 of size 0: the modules of chunk 2 weigh nothing.\<close>

definition weightless_graph :: graph where
  "weightless_graph =
     sample_graph\<lparr>module_heap := (module_heap sample_graph)
        (2 := (new_module (Finite 0))\<lparr>m_chunks := [2, 3]\<rparr>)\<rparr>"

definition default_options :: options where
  "default_options = \<lparr>chunkOverhead = None, entryChunkMultiplicator = None\<rparr>"

section \<open>Lemmas\<close>

lemmas setters = set_m_chunks_def set_c_modules_def set_c_groups_def set_name_def set_g_chunks_def

lemmas eval_defs = Chunk_isInitial_def ChunkGroup_isInitial_def group_at_def Chunk_hasEntryModule_def
  Chunk_isInGroup_def Chunk_containsModule_def Chunk_isEmpty_def set_add_def new_chunk_def new_module_def
  Module_isInChunk_def

lemmas num_eval = round64_def rnd_def grid_def quantum_exp_def expo.simps rne_def

lemmas size_defs = Chunk_integratedSize_def Chunk_size_def Chunk_addMultiplierAndOverhead_def
  Chunk_modulesSize_def getModulesSize_def multiplicator_def overhead_def js_ge_def default_options_def

subsection \<open>Removing an edge\<close>

lemma Module_removeChunk_absent:
  "c \<notin> set (m_chunks (module_heap s m)) \<Longrightarrow> Module_removeChunk s m c = (False, s)"
  by (simp add: Module_removeChunk.simps)

lemma Chunk_removeModule_absent:
  "m \<notin> set (c_modules (chunk_heap s c)) \<Longrightarrow> Chunk_removeModule s c m = (False, s)"
  by (simp add: Chunk_removeModule.simps)

lemma Chunk_removeModule_once:
  "c \<notin> set (m_chunks (module_heap s m)) \<Longrightarrow>
   Chunk_removeModule s c m =
     (m \<in> set (c_modules (chunk_heap s c)),
      set_c_modules s c (removeAll m (c_modules (chunk_heap s c))))"
  by (simp add: Chunk_removeModule.simps[of s c m] Module_removeChunk_absent setters)

lemma Module_removeChunk_once:
  "m \<notin> set (c_modules (chunk_heap s c)) \<Longrightarrow>
   Module_removeChunk s m c =
     (c \<in> set (m_chunks (module_heap s m)),
      set_m_chunks s m (removeAll c (m_chunks (module_heap s m))))"
  by (simp add: Module_removeChunk.simps[of s m c] Chunk_removeModule_absent setters)

lemma Module_removeChunk_eq:
  "Module_removeChunk s m c =
     (if c \<in> set (m_chunks (module_heap s m)) then
        (True, set_c_modules (set_m_chunks s m (removeAll c (m_chunks (module_heap s m)))) c
                 (removeAll m (c_modules (chunk_heap s c))))
      else (False, s))"
  by (simp add: Module_removeChunk.simps[of s m c] Chunk_removeModule_once setters)

lemma Chunk_removeModule_eq:
  "Chunk_removeModule s c m =
     (if m \<in> set (c_modules (chunk_heap s c)) then
        (True, set_m_chunks (set_c_modules s c (removeAll m (c_modules (chunk_heap s c)))) m
                 (removeAll c (m_chunks (module_heap s m))))
      else (False, s))"
  by (simp add: Chunk_removeModule.simps[of s c m] Module_removeChunk_once setters)

lemma disconnect_eq:
  "disconnectChunkAndModule s c m =
     set_m_chunks (set_c_modules s c (removeAll m (c_modules (chunk_heap s c)))) m
       (removeAll c (m_chunks (module_heap s m)))"
  by (simp add: disconnectChunkAndModule_def Module_removeChunk_eq Chunk_removeModule_eq setters)

subsection \<open>Replacing a chunk in a group\<close>

lemma indexOf_first:
  assumes "x \<notin> set pre"
  shows "indexOf (pre @ x # post) x = int (length pre)"
proof -
  have "takeWhile (\<lambda>y. y \<noteq> x) (pre @ x # post) = pre"
    using assms by (induction pre) auto
  then show ?thesis by (simp add: indexOf_def)
qed

lemma indexOf_absent: "x \<notin> set xs \<Longrightarrow> indexOf xs x = - 1"
  by (simp add: indexOf_def)

lemma indexOf_nonneg: "x \<in> set xs \<Longrightarrow> 0 \<le> indexOf xs x"
  by (simp add: indexOf_def)

lemma indexOf_nth:
  assumes "x \<in> set xs"
  shows "nat (indexOf xs x) < length xs \<and> xs ! nat (indexOf xs x) = x"
proof -
  have "length (takeWhile (\<lambda>y. y \<noteq> x) xs) < length xs"
    using assms by (induction xs) auto
  then show ?thesis
    using nth_length_takeWhile[of "\<lambda>y. y \<noteq> x" xs] assms by (simp add: indexOf_def)
qed

lemma set_splice1: "set (splice1 xs i) \<subseteq> set xs"
  unfolding splice1_def using set_take_subset[of i xs] set_drop_subset[of "Suc i" xs] by auto

lemma replaceChunk_list_absent: "old \<notin> set cs \<Longrightarrow> replaceChunk_list cs old new = cs"
  by (simp add: replaceChunk_list_def indexOf_absent)

lemma replaceChunk_list_present:
  assumes d: "distinct cs" and m: "old \<in> set cs" and ne: "old \<noteq> new"
  shows "new \<in> set (replaceChunk_list cs old new) \<and> old \<notin> set (replaceChunk_list cs old new)"
proof -
  from split_list_first[OF m] obtain pre post where
    cs: "cs = pre @ old # post" and pre: "old \<notin> set pre" by blast
  from d cs have post: "old \<notin> set post" by simp
  have oi: "indexOf cs old = int (length pre)" using indexOf_first[OF pre] cs by simp
  show ?thesis
  proof (cases "new \<in> set cs")
    case False
    then have "replaceChunk_list cs old new = pre @ new # post"
      using oi cs by (simp add: replaceChunk_list_def indexOf_absent)
    then show ?thesis using pre post ne by simp
  next
    case True
    let ?n = "indexOf cs new"
    have n0: "0 \<le> ?n" using True by (rule indexOf_nonneg)
    have nth: "cs ! nat ?n = new" using indexOf_nth[OF True] by simp
    have neq: "?n \<noteq> int (length pre)"
    proof
      assume "?n = int (length pre)"
      then have "cs ! nat ?n = old" using cs by simp
      with nth ne show False by simp
    qed
    show ?thesis
    proof (cases "?n < int (length pre)")
      case True
      then have r: "replaceChunk_list cs old new = pre @ post"
        using oi n0 cs by (simp add: replaceChunk_list_def splice1_def)
      have "new \<in> set pre \<union> set post" using \<open>new \<in> set cs\<close> cs ne by auto
      then show ?thesis using r pre post by simp
    next
      case False
      with neq have gt: "int (length pre) < ?n" by simp
      then have r: "replaceChunk_list cs old new = splice1 (pre @ new # post) (nat ?n)"
        using oi n0 cs by (simp add: replaceChunk_list_def)
      have "nat ?n > length pre" using gt by simp
      then have "new \<in> set (take (nat ?n) (pre @ new # post))"
        by (simp add: take_Cons')
      then have a: "new \<in> set (splice1 (pre @ new # post) (nat ?n))"
        unfolding splice1_def set_append by blast
      have "old \<notin> set (pre @ new # post)" using pre post ne by simp
      then have "old \<notin> set (splice1 (pre @ new # post) (nat ?n))"
        using set_splice1[of "pre @ new # post" "nat ?n"] by blast
      with a r show ?thesis by simp
    qed
  qed
qed

subsection \<open>The loops of integrate\<close>

lemma moveModule_group_heap [simp]: "group_heap (Chunk_moveModule s b m a) = group_heap s"
  by (simp add: Chunk_moveModule_def connectChunkAndModule_def disconnect_eq Module_addChunk_def
      Chunk_addModule_def setters)

lemma moveModule_module_heap:
  "module_heap (Chunk_moveModule s b m a) m' =
     (if m' = m
      then (module_heap s m)\<lparr>m_chunks := set_add (removeAll b (m_chunks (module_heap s m))) a\<rparr>
      else module_heap s m')"
  by (simp add: Chunk_moveModule_def connectChunkAndModule_def disconnect_eq Module_addChunk_def
      Chunk_addModule_def setters set_add_def)

lemma moveModule_chunk_heap:
  "a \<noteq> b \<Longrightarrow>
   chunk_heap (Chunk_moveModule s b m a) c =
     (if c = b then (chunk_heap s b)\<lparr>c_modules := removeAll m (c_modules (chunk_heap s b))\<rparr>
      else if c = a \<and> a \<notin> set (m_chunks (module_heap s m))
      then (chunk_heap s a)\<lparr>c_modules := set_add (c_modules (chunk_heap s a)) m\<rparr>
      else chunk_heap s c)"
  by (simp add: Chunk_moveModule_def connectChunkAndModule_def disconnect_eq Module_addChunk_def
      Chunk_addModule_def setters set_add_def)

lemma move_loop_frame:
  "a \<noteq> b \<Longrightarrow>
   group_heap (fold (\<lambda>modul st. Chunk_moveModule st b modul a) ms s) = group_heap s \<and>
   (\<forall>c. c_groups (chunk_heap (fold (\<lambda>modul st. Chunk_moveModule st b modul a) ms s) c)
          = c_groups (chunk_heap s c) \<and>
        name (chunk_heap (fold (\<lambda>modul st. Chunk_moveModule st b modul a) ms s) c)
          = name (chunk_heap s c)) \<and>
   set (c_modules (chunk_heap s a))
     \<subseteq> set (c_modules (chunk_heap (fold (\<lambda>modul st. Chunk_moveModule st b modul a) ms s) a))"
proof (induction ms arbitrary: s)
  case Nil
  then show ?case by simp
next
  case (Cons m ms)
  have step: "set (c_modules (chunk_heap s a))
      \<subseteq> set (c_modules (chunk_heap (Chunk_moveModule s b m a) a))"
    using Cons.prems by (auto simp: moveModule_chunk_heap set_add_def)
  show ?case
    using Cons.IH[OF Cons.prems, of "Chunk_moveModule s b m a"] step Cons.prems
    by (auto simp: moveModule_chunk_heap)
qed

lemma move_loop_members:
  assumes "a \<noteq> b"
    and "\<forall>m \<in> set ms. a \<in> set (m_chunks (module_heap s m))
            \<longrightarrow> m \<in> set (c_modules (chunk_heap s a))"
  shows "\<forall>m \<in> set ms.
           m \<in> set (c_modules (chunk_heap (fold (\<lambda>modul st. Chunk_moveModule st b modul a) ms s) a))"
  using assms(2)
proof (induction ms arbitrary: s)
  case Nil
  then show ?case by simp
next
  case (Cons x xs)
  let ?s1 = "Chunk_moveModule s b x a"
  have x_in: "x \<in> set (c_modules (chunk_heap ?s1 a))"
    using Cons.prems assms(1) by (auto simp: moveModule_chunk_heap set_add_def)
  have mono: "set (c_modules (chunk_heap s a)) \<subseteq> set (c_modules (chunk_heap ?s1 a))"
    using assms(1) by (auto simp: moveModule_chunk_heap set_add_def)
  have inv: "\<forall>m \<in> set xs. a \<in> set (m_chunks (module_heap ?s1 m))
              \<longrightarrow> m \<in> set (c_modules (chunk_heap ?s1 a))"
  proof (intro ballI impI)
    fix m assume m: "m \<in> set xs" and a_in: "a \<in> set (m_chunks (module_heap ?s1 m))"
    show "m \<in> set (c_modules (chunk_heap ?s1 a))"
    proof (cases "m = x")
      case True
      then show ?thesis using x_in by simp
    next
      case False
      then have "a \<in> set (m_chunks (module_heap s m))"
        using a_in by (simp add: moveModule_module_heap)
      then show ?thesis using Cons.prems m mono by auto
    qed
  qed
  have "set (c_modules (chunk_heap ?s1 a))
      \<subseteq> set (c_modules (chunk_heap (fold (\<lambda>modul st. Chunk_moveModule st b modul a) xs ?s1) a))"
    using move_loop_frame[OF assms(1), of xs ?s1] by blast
  with x_in Cons.IH[OF inv] show ?case by auto
qed

lemma integrate_group_step_module_heap [simp]: "module_heap (integrate_group_step a b g s) = module_heap s"
  by (simp add: integrate_group_step_def Chunk_addGroup_def ChunkGroup_replaceChunk_def setters)

lemma integrate_group_step_chunk_heap:
  "chunk_heap (integrate_group_step a b g s) c =
     (if c = a then (chunk_heap s a)\<lparr>c_groups := set_add (c_groups (chunk_heap s a)) g\<rparr>
      else chunk_heap s c)"
  by (simp add: integrate_group_step_def Chunk_addGroup_def ChunkGroup_replaceChunk_def setters set_add_def)

lemma integrate_group_step_group_at:
  "group_at (integrate_group_step a b g s) g' =
     (if g' = g \<and> g < length (group_heap s)
      then (group_at s g)\<lparr>chunks := replaceChunk_list (chunks (group_at s g)) b a\<rparr>
      else group_at s g')"
  by (simp add: integrate_group_step_def Chunk_addGroup_def ChunkGroup_replaceChunk_def setters group_at_def)

lemma integrate_group_step_length [simp]: "length (group_heap (integrate_group_step a b g s)) = length (group_heap s)"
  by (simp add: integrate_group_step_def Chunk_addGroup_def ChunkGroup_replaceChunk_def setters)

lemma group_loop_frame:
  "module_heap (fold (integrate_group_step a b) gs s) = module_heap s \<and>
   length (group_heap (fold (integrate_group_step a b) gs s)) = length (group_heap s) \<and>
   (\<forall>c. c_modules (chunk_heap (fold (integrate_group_step a b) gs s) c) = c_modules (chunk_heap s c) \<and>
        name (chunk_heap (fold (integrate_group_step a b) gs s) c) = name (chunk_heap s c) \<and>
        (c \<noteq> a \<longrightarrow> c_groups (chunk_heap (fold (integrate_group_step a b) gs s) c)
                        = c_groups (chunk_heap s c))) \<and>
   set (c_groups (chunk_heap s a)) \<union> set gs
     \<subseteq> set (c_groups (chunk_heap (fold (integrate_group_step a b) gs s) a))"
proof (induction gs arbitrary: s)
  case Nil
  then show ?case by simp
next
  case (Cons g gs)
  show ?case
    using Cons.IH[of "integrate_group_step a b g s"]
    by (auto simp: integrate_group_step_chunk_heap set_add_def)
qed

lemma integrate_group_step_owns:
  assumes "a \<noteq> b"
  shows "owns_new a b s g' \<Longrightarrow> owns_new a b (integrate_group_step a b g s) g'"
    and "owns_old b s g \<Longrightarrow> owns_new a b (integrate_group_step a b g s) g"
    and "owns_old b s g' \<Longrightarrow> owns_old b (integrate_group_step a b g s) g' \<or> owns_new a b (integrate_group_step a b g s) g'"
proof -
  show "owns_new a b s g' \<Longrightarrow> owns_new a b (integrate_group_step a b g s) g'"
    by (auto simp: owns_new_def integrate_group_step_group_at replaceChunk_list_absent)
  show old: "owns_old b s g \<Longrightarrow> owns_new a b (integrate_group_step a b g s) g" for g
    using replaceChunk_list_present[of "chunks (group_at s g)" b a] assms
    by (auto simp: owns_new_def owns_old_def integrate_group_step_group_at)
  show "owns_old b s g' \<Longrightarrow> owns_old b (integrate_group_step a b g s) g' \<or> owns_new a b (integrate_group_step a b g s) g'"
    using old[of g'] by (cases "g' = g") (auto simp: owns_old_def integrate_group_step_group_at)
qed

lemma group_loop_keeps:
  assumes "a \<noteq> b"
  shows "owns_new a b s g' \<Longrightarrow> owns_new a b (fold (integrate_group_step a b) gs s) g'"
  by (induction gs arbitrary: s) (simp_all add: integrate_group_step_owns(1)[OF assms])

lemma group_loop_owns:
  assumes "a \<noteq> b"
  shows "(\<forall>g \<in> set gs. owns_old b s g \<or> owns_new a b s g) \<Longrightarrow>
         (\<forall>g \<in> set gs. owns_new a b (fold (integrate_group_step a b) gs s) g)"
proof (induction gs arbitrary: s)
  case Nil
  then show ?case by simp
next
  case (Cons g gs)
  let ?s1 = "integrate_group_step a b g s"
  have all: "\<forall>h \<in> set gs. owns_old b ?s1 h \<or> owns_new a b ?s1 h"
    using Cons.prems integrate_group_step_owns[OF assms] by (metis list.set_intros(2))
  have gnew: "owns_new a b ?s1 g"
    using Cons.prems integrate_group_step_owns[OF assms] by (metis list.set_intros(1))
  have keep: "owns_new a b (fold (integrate_group_step a b) gs ?s1) g"
    using group_loop_keeps[OF assms gnew] .
  show ?case
    using Cons.IH[OF all] keep by simp
qed

lemma group_at_cong: "group_heap s = group_heap t \<Longrightarrow> group_at s g = group_at t g"
  by (simp add: group_at_def)

lemma integrate_fst: "fst (Chunk_integrate s a b) = Chunk_canBeIntegrated s a b"
  by (simp add: Chunk_integrate_def Let_def)

lemma integrate_name_shorter:
  assumes "na \<noteq> []" "nb \<noteq> []"
  shows "\<exists>r. integrate_name (Some na) (Some nb) = Some r \<and> (r = na \<or> r = nb) \<and>
           length r \<le> length na \<and> length r \<le> length nb \<and>
           (length na = length nb \<longrightarrow> r \<le> na \<and> r \<le> nb)"
  using assms by (auto simp: integrate_name_def)

lemma integrate_other_empty:
  assumes "Chunk_integrate s a b = (True, s')"
  shows "c_modules (chunk_heap s' b) = [] \<and> c_groups (chunk_heap s' b) = []"
proof -
  define s1 where "s1 = fold (\<lambda>modul st. Chunk_moveModule st b modul a) (c_modules (chunk_heap s b)) s"
  define s2 where "s2 = set_c_modules s1 b []"
  define s3 where "s3 = fold (integrate_group_step a b) (c_groups (chunk_heap s2 b)) s2"
  define s4 where "s4 = set_c_groups s3 b []"
  have s': "s' = set_name s4 a (integrate_name (name (chunk_heap s4 a)) (name (chunk_heap s4 b)))"
    using assms unfolding Chunk_integrate_def s1_def s2_def s3_def s4_def
    by (simp add: Let_def split: if_splits)
  have "c_modules (chunk_heap s2 b) = []" by (simp add: s2_def setters)
  then have "c_modules (chunk_heap s3 b) = []"
    using group_loop_frame[of a b "c_groups (chunk_heap s2 b)" s2] by (simp add: s3_def)
  then have "c_modules (chunk_heap s4 b) = [] \<and> c_groups (chunk_heap s4 b) = []"
    by (simp add: s4_def setters)
  then show ?thesis by (cases "b = a") (simp_all add: s' setters)
qed

subsection \<open>The loops of remove\<close>

lemma remove_module_step_group_heap [simp]:
  "group_heap (remove_module_step c m s) = group_heap s"
  by (simp add: remove_module_step_def Module_removeChunk_eq setters)

lemma remove_module_step_module_heap:
  "module_heap (remove_module_step c x s) m =
     (if m = x then (module_heap s x)\<lparr>m_chunks := removeAll c (m_chunks (module_heap s x))\<rparr>
      else module_heap s m)"
  by (simp add: remove_module_step_def Module_removeChunk_eq setters)

lemma remove_module_step_chunk_heap:
  "chunk_heap (remove_module_step c x s) c' =
     (if c' = c \<and> c \<in> set (m_chunks (module_heap s x))
      then (chunk_heap s c)\<lparr>c_modules := removeAll x (c_modules (chunk_heap s c))\<rparr>
      else chunk_heap s c')"
  by (simp add: remove_module_step_def Module_removeChunk_eq setters)

lemma remove_module_loop:
  "group_heap (fold (remove_module_step c) xs s) = group_heap s \<and>
   (\<forall>m. m_chunks (module_heap (fold (remove_module_step c) xs s) m) =
         (if m \<in> set xs then removeAll c (m_chunks (module_heap s m))
          else m_chunks (module_heap s m))) \<and>
   (\<forall>c'. c_groups (chunk_heap (fold (remove_module_step c) xs s) c') = c_groups (chunk_heap s c')) \<and>
   c_modules (chunk_heap (fold (remove_module_step c) xs s) c) =
     filter (\<lambda>m. \<not> (m \<in> set xs \<and> c \<in> set (m_chunks (module_heap s m))))
       (c_modules (chunk_heap s c))"
proof (induction xs arbitrary: s)
  case Nil
  then show ?case by simp
next
  case (Cons x xs)
  let ?s1 = "remove_module_step c x s"
  have in1: "c \<in> set (m_chunks (module_heap ?s1 m)) \<longleftrightarrow>
             m \<noteq> x \<and> c \<in> set (m_chunks (module_heap s m))" for m
    by (simp add: remove_module_step_module_heap)
  have cm1: "c_modules (chunk_heap ?s1 c) =
       filter (\<lambda>m. \<not> (m = x \<and> c \<in> set (m_chunks (module_heap s m)))) (c_modules (chunk_heap s c))"
  proof (cases "c \<in> set (m_chunks (module_heap s x))")
    case True
    then show ?thesis
      by (simp add: remove_module_step_chunk_heap removeAll_filter_not_eq) (metis)
  next
    case False
    then have "\<And>m. \<not> (m = x \<and> c \<in> set (m_chunks (module_heap s m)))" by blast
    then show ?thesis using False by (simp add: remove_module_step_chunk_heap)
  qed
  have filt: "c_modules (chunk_heap (fold (remove_module_step c) xs ?s1) c) =
     filter (\<lambda>m. \<not> (m \<in> set (x # xs) \<and> c \<in> set (m_chunks (module_heap s m))))
       (c_modules (chunk_heap s c))"
    using Cons.IH[of ?s1] by (simp add: in1 cm1) (metis)
  show ?case
    using Cons.IH[of ?s1] filt
    by (simp add: remove_module_step_module_heap remove_module_step_chunk_heap)
qed

lemma ChunkGroup_removeChunk_frame [simp]:
  "chunk_heap (ChunkGroup_removeChunk s g c) = chunk_heap s"
  "module_heap (ChunkGroup_removeChunk s g c) = module_heap s"
  by (simp_all add: ChunkGroup_removeChunk_def Let_def setters)

lemma remove_group_loop [simp]:
  "chunk_heap (fold (\<lambda>chunkGroup st. ChunkGroup_removeChunk st chunkGroup c) gs s) = chunk_heap s"
  "module_heap (fold (\<lambda>chunkGroup st. ChunkGroup_removeChunk st chunkGroup c) gs s) = module_heap s"
  by (induction gs arbitrary: s) simp_all

subsection \<open>Rounding\<close>

text \<open>The binary exponent brackets its argument, rounding to the nearest is monotone and
  idempotent, and so is \<open>round64\<close> for the order \<open><=\<close> of the numbers.\<close>

lemma expo_bracket:
  "0 < x \<Longrightarrow> 2 powi (expo x) \<le> x \<and> x < 2 powi (expo x + 1)"
proof (induction x rule: expo.induct)
  case (1 x)
  show ?case
  proof (cases "2 \<le> x")
    case True
    then have e: "expo x = expo (x / 2) + 1" using 1(3) by (simp add: expo.simps[of x])
    have "2 powi (expo (x / 2)) \<le> x / 2 \<and> x / 2 < 2 powi (expo (x / 2) + 1)"
      using 1(1) True 1(3) by simp
    then show ?thesis by (simp add: e power_int_add)
  next
    case False
    show ?thesis
    proof (cases "x < 1")
      case True
      then have e: "expo x = expo (2 * x) - 1"
        using 1(3) False by (simp add: expo.simps[of x])
      have "2 powi (expo (2 * x)) \<le> 2 * x \<and> 2 * x < 2 powi (expo (2 * x) + 1)"
        using 1(2) True False 1(3) by simp
      then show ?thesis by (simp add: e power_int_add power_int_diff)
    next
      case F2: False
      then have "expo x = 0" using False 1(3) by (simp add: expo.simps[of x])
      then show ?thesis using False F2 by simp
    qed
  qed
qed

lemma p2_le_iff: "(2::real) powi n \<le> 2 powi m \<longleftrightarrow> n \<le> m"
proof
  assume a: "(2::real) powi n \<le> 2 powi m"
  show "n \<le> m"
  proof (rule ccontr)
    assume "\<not> n \<le> m"
    then have "(2::real) powi m < 2 powi n" by (intro power_int_strict_increasing) simp_all
    with a show False by simp
  qed
next
  assume "n \<le> m"
  then show "(2::real) powi n \<le> 2 powi m" by (intro power_int_increasing) simp_all
qed

lemma p2_less_iff: "(2::real) powi n < 2 powi m \<longleftrightarrow> n < m"
  using p2_le_iff[of m n] by (simp add: not_le[symmetric])

lemma p2_pos [simp]: "0 < (2::real) powi n"
  by (simp add: zero_less_power_int)

lemma expo_unique:
  assumes "2 powi n \<le> x" "x < 2 powi (n + 1)"
  shows "expo x = n"
proof -
  have x: "0 < x" using assms(1) p2_pos[of n] by linarith
  from expo_bracket[OF x] have b: "2 powi (expo x) \<le> x" "x < 2 powi (expo x + 1)" by simp_all
  have "(2::real) powi n < 2 powi (expo x + 1)" using assms(1) b(2) by simp
  then have "n < expo x + 1" by (simp add: p2_less_iff)
  moreover have "(2::real) powi (expo x) < 2 powi (n + 1)" using assms(2) b(1) by simp
  then have "expo x < n + 1" by (simp add: p2_less_iff)
  ultimately show ?thesis by simp
qed


lemma rne_of_int [simp]: "rne (of_int n) = n"
  by (simp add: rne_def)

lemma rne_0 [simp]: "rne 0 = 0"
  by (simp add: rne_def)

lemma rne_minus_of_int [simp]: "rne (- of_int n) = - n"
  using rne_of_int[of "- n"] by (simp del: rne_of_int)

lemma rne_bounds: "\<lfloor>y\<rfloor> \<le> rne y \<and> rne y \<le> \<lfloor>y\<rfloor> + 1"
  by (simp add: rne_def Let_def)

lemma rne_mono:
  assumes "y \<le> z"
  shows "rne y \<le> rne z"
proof (cases "\<lfloor>y\<rfloor> < \<lfloor>z\<rfloor>")
  case True
  then show ?thesis using rne_bounds[of y] rne_bounds[of z] by linarith
next
  case False
  then have f: "\<lfloor>y\<rfloor> = \<lfloor>z\<rfloor>" using floor_mono[OF assms] by linarith
  then have "y - of_int \<lfloor>y\<rfloor> \<le> z - of_int \<lfloor>z\<rfloor>" using assms by simp
  then show ?thesis using f by (auto simp: rne_def Let_def)
qed

lemma rne_uminus: "rne (- y) = - rne y"
proof (cases "y = of_int \<lfloor>y\<rfloor>")
  case True
  then have "rne (- y) = rne (- of_int \<lfloor>y\<rfloor>)" by simp
  also have "\<dots> = - rne (of_int \<lfloor>y\<rfloor>)" by simp
  finally show ?thesis using True by simp
next
  case False
  then have lt: "of_int \<lfloor>y\<rfloor> < y" using of_int_floor_le[of y] by linarith
  have "\<lfloor>- y\<rfloor> = - \<lfloor>y\<rfloor> - 1"
  proof (rule floor_unique)
    show "of_int (- \<lfloor>y\<rfloor> - 1) \<le> - y" using floor_correct[of y] by simp linarith
    show "- y < of_int (- \<lfloor>y\<rfloor> - 1) + 1" using lt by simp
  qed
  then show ?thesis by (auto simp: rne_def Let_def)
qed

lemma rne_nonneg: "0 \<le> y \<Longrightarrow> 0 \<le> rne y"
  using rne_mono[of 0 y] by simp

lemma rnd_grid: "rnd x = grid (quantum_exp x) x"
  by (simp add: rnd_def)

lemma grid_mono: "x \<le> y \<Longrightarrow> grid t x \<le> grid t y"
  unfolding grid_def
  by (intro mult_left_mono) (simp_all add: rne_mono divide_right_mono)

lemma grid_fix: "t \<le> n \<Longrightarrow> grid t (of_int k * 2 powi n) = of_int k * 2 powi n"
proof -
  assume tn: "t \<le> n"
  have "of_int k * 2 powi n / 2 powi t = (of_int k * 2 powi (n - t) :: real)"
    by (simp add: power_int_diff)
  also have "\<dots> = of_int (k * 2 ^ nat (n - t))"
    using tn by (simp add: power_int_def)
  finally have "rne (of_int k * 2 powi n / 2 powi t) = k * 2 ^ nat (n - t)"
    by (simp only: rne_of_int)
  then have "grid t (of_int k * 2 powi n) = 2 powi t * (of_int k * 2 powi (n - t))"
    using tn by (simp add: grid_def power_int_def)
  also have "\<dots> = of_int k * 2 powi n" by (simp add: power_int_diff)
  finally show ?thesis .
qed

lemma grid_uminus: "grid t (- x) = - grid t x"
  by (simp add: grid_def rne_uminus)

lemma quantum_exp_uminus [simp]: "quantum_exp (- x) = quantum_exp x"
  by (simp add: quantum_exp_def)

lemma rnd_uminus: "rnd (- x) = - rnd x"
  by (simp add: rnd_grid grid_uminus)

lemma rnd_0 [simp]: "rnd 0 = 0"
  by (simp add: rnd_def grid_def)

lemma expo_mono: "0 < x \<Longrightarrow> x \<le> y \<Longrightarrow> expo x \<le> expo y"
proof -
  assume x: "0 < x" and xy: "x \<le> y"
  from expo_bracket[OF x] have "2 powi (expo x) \<le> x" by simp
  moreover from expo_bracket[of y] x xy have "y < 2 powi (expo y + 1)" by simp
  ultimately have "(2::real) powi (expo x) < 2 powi (expo y + 1)" using xy by linarith
  then show ?thesis by (simp add: p2_less_iff)
qed

lemma rnd_mono_pos:
  assumes x: "0 < x" and xy: "x \<le> y"
  shows "rnd x \<le> rnd y"
proof -
  have y: "0 < y" using x xy by simp
  have q: "quantum_exp x \<le> quantum_exp y"
    using expo_mono[OF x xy] x y by (simp add: quantum_exp_def)
  show ?thesis
  proof (cases "quantum_exp x = quantum_exp y")
    case True
    then show ?thesis by (simp add: rnd_grid grid_mono xy)
  next
    case False
    with q have lt: "quantum_exp x < quantum_exp y" by simp
    then have qy: "quantum_exp y = expo y - 52" and ex: "expo x < expo y"
      using x y by (auto simp: quantum_exp_def max_def split: if_splits)
    define B :: real where "B = 2 powi (expo y)"
    have By: "B \<le> y" using expo_bracket[OF y] by (simp add: B_def)
    have "x < 2 powi (expo x + 1)" using expo_bracket[OF x] by simp
    also have "\<dots> \<le> B" unfolding B_def using ex by (simp add: p2_le_iff)
    finally have xB: "x \<le> B" by simp
    have Bk: "B = of_int 1 * 2 powi (expo y)" by (simp add: B_def)
    have "quantum_exp x \<le> expo y" using lt qy by simp
    then have fx: "grid (quantum_exp x) B = B" unfolding Bk by (rule grid_fix)
    have "quantum_exp y \<le> expo y" using qy by simp
    then have fy: "grid (quantum_exp y) B = B" unfolding Bk by (rule grid_fix)
    have "rnd x \<le> B" using grid_mono[OF xB, of "quantum_exp x"] fx by (simp add: rnd_grid)
    moreover have "B \<le> rnd y" using grid_mono[OF By, of "quantum_exp y"] fy by (simp add: rnd_grid)
    ultimately show ?thesis by simp
  qed
qed

lemma rnd_nonneg: "0 \<le> x \<Longrightarrow> 0 \<le> rnd x"
  unfolding rnd_def grid_def by (intro mult_nonneg_nonneg) (simp_all add: rne_nonneg)

lemma rnd_mono:
  assumes "x \<le> y"
  shows "rnd x \<le> rnd y"
proof -
  consider "0 < x" | "y < 0" | "x \<le> 0" "0 \<le> y" by linarith
  then show ?thesis
  proof cases
    case 1
    then show ?thesis using rnd_mono_pos assms by simp
  next
    case 2
    then have "rnd (- y) \<le> rnd (- x)" using rnd_mono_pos[of "- y" "- x"] assms by simp
    then show ?thesis by (simp add: rnd_uminus)
  next
    case 3
    have "0 \<le> rnd (- x)" using 3 by (intro rnd_nonneg) simp
    then have "rnd x \<le> 0" by (simp add: rnd_uminus)
    moreover have "0 \<le> rnd y" using 3 by (intro rnd_nonneg)
    ultimately show ?thesis by simp
  qed
qed

lemma rnd_exact:
  assumes "x = of_int k * 2 powi n" "quantum_exp x \<le> n"
  shows "rnd x = x"
  using grid_fix[OF assms(2), of k] assms(1) by (simp add: rnd_grid)

lemma rnd_idem: "rnd (rnd x) = rnd x"
proof -
  have pos: "rnd (rnd x) = rnd x" if x: "0 < x" for x
  proof -
    define e where "e = expo x"
    define t where "t = quantum_exp x"
    define k where "k = rne (x / 2 powi t)"
    have r: "rnd x = of_int k * 2 powi t" by (simp add: rnd_def grid_def t_def k_def)
    define u where "u = max (e + 1) t"
    have tu: "t \<le> u" and eu: "e + 1 \<le> u" by (simp_all add: u_def)
    have t_low: "- 1074 \<le> t" and t_e: "e - 52 \<le> t"
      using x by (simp_all add: t_def e_def quantum_exp_def)
    have "x < 2 powi (e + 1)" using expo_bracket[OF x] by (simp add: e_def)
    also have "\<dots> \<le> 2 powi u" using eu by (simp add: p2_le_iff)
    finally have "x \<le> 2 powi u" by simp
    then have "grid t x \<le> grid t (of_int 1 * 2 powi u)" by (simp add: grid_mono)
    then have ub: "rnd x \<le> 2 powi u"
      using grid_fix[OF tu, of 1] by (simp add: rnd_grid t_def)
    have nn: "0 \<le> rnd x" using x by (intro rnd_nonneg) simp
    consider "rnd x = 2 powi u" | "rnd x = 0" | "0 < rnd x" "rnd x < 2 powi u"
      using ub nn by linarith
    then show ?thesis
    proof cases
      case 1
      have "expo (rnd x) = u" by (rule expo_unique) (simp_all add: 1 p2_less_iff)
      then have "quantum_exp (rnd x) \<le> u"
        using nn tu t_low by (simp add: quantum_exp_def)
      then show ?thesis using rnd_exact[of "rnd x" 1 u] 1 by simp
    next
      case 2
      then show ?thesis by simp
    next
      case 3
      have "2 powi (expo (rnd x)) \<le> rnd x" using expo_bracket[OF 3(1)] by simp
      then have "(2::real) powi (expo (rnd x)) < 2 powi u" using 3(2) by linarith
      then have "expo (rnd x) < u" by (simp add: p2_less_iff)
      then have "quantum_exp (rnd x) \<le> t"
        using 3(1) t_low t_e by (simp add: quantum_exp_def u_def max_def split: if_splits)
      then show ?thesis using rnd_exact[of "rnd x" k t] r by simp
    qed
  qed
  consider "0 < x" | "x = 0" | "x < 0" by linarith
  then show ?thesis
  proof cases
    case 1
    then show ?thesis by (rule pos)
  next
    case 2
    then show ?thesis by simp
  next
    case 3
    then have "rnd (rnd (- x)) = rnd (- x)" by (intro pos) simp
    then show ?thesis by (simp add: rnd_uminus)
  qed
qed

lemma round64_not_NaN [simp]: "round64 x \<noteq> NaN"
  by (simp add: round64_def)

lemma round64_mono: "x \<le> y \<Longrightarrow> num_le (round64 x) (round64 y)"
proof -
  assume xy: "x \<le> y"
  have r: "rnd x \<le> rnd y" using xy by (rule rnd_mono)
  have px: "0 \<le> rnd x" if "0 < x" using that rnd_nonneg[of x] by simp
  have ny: "rnd y \<le> 0" if "\<not> 0 < y"
  proof -
    have "0 \<le> rnd (- y)" using that by (intro rnd_nonneg) simp
    then show ?thesis by (simp add: rnd_uminus)
  qed
  show ?thesis
    using r xy px ny by (auto simp: round64_def)
qed

lemma round64_is_double [simp]: "is_double (round64 x)"
proof (cases "2 ^ 1024 \<le> \<bar>rnd x\<bar>")
  case True
  then show ?thesis by (simp add: round64_def is_double_def)
next
  case False
  then have "round64 x = Finite (rnd x)" by (simp add: round64_def)
  moreover have "round64 (rnd x) = Finite (rnd x)"
    using False by (simp add: round64_def rnd_idem)
  ultimately show ?thesis by (simp add: is_double_def)
qed

lemma expo_p2 [simp]: "expo (2 powi n) = n"
  by (rule expo_unique) (simp_all add: p2_less_iff)

lemma rnd_p2: "- 1074 \<le> n \<Longrightarrow> rnd (2 powi n) = 2 powi n"
  by (rule rnd_exact[of _ 1 n]) (simp_all add: quantum_exp_def)

lemma round64_overflow:
  assumes "2 ^ 1024 \<le> x"
  shows "round64 x = PosInf"
proof -
  define B :: real where "B = 2 powi 1024"
  have B: "2 ^ 1024 = B" by (simp add: B_def power_int_def)
  have "rnd B = B" unfolding B_def by (rule rnd_p2) simp
  then have "B \<le> rnd x" using rnd_mono[of B x] assms B by simp
  moreover have "0 < B" by (simp add: B_def)
  ultimately show ?thesis using assms unfolding round64_def B by simp
qed

lemma num_le_refl: "n \<noteq> NaN \<Longrightarrow> num_le n n"
  by (cases n) simp_all

lemma num_le_trans: "num_le a b \<Longrightarrow> num_le b c \<Longrightarrow> num_le a c"
  by (cases a; cases b; cases c) simp_all

text \<open>Adding a number that is not negative to a double cannot make it smaller.\<close>

lemma num_add_ge:
  assumes "is_double a" "num_le (Finite 0) a" "num_le (Finite 0) t"
  shows "num_le a (num_add a t) \<and> num_le (Finite 0) (num_add a t) \<and> is_double (num_add a t)"
proof (cases a)
  case (Finite x)
  note a = this
  show ?thesis
  proof (cases t)
    case (Finite y)
    have x: "0 \<le> x" and y: "0 \<le> y" using assms a Finite by simp_all
    have "num_le (round64 x) (round64 (x + y))" using y by (intro round64_mono) simp
    moreover have "round64 x = Finite x" using assms(1) a by (simp add: is_double_def)
    moreover have "num_le (round64 0) (round64 (x + y))" using x y by (intro round64_mono) simp
    moreover have "round64 0 = Finite 0" by (simp add: round64_def)
    ultimately show ?thesis using a Finite by simp
  qed (use assms a in \<open>simp_all add: is_double_def\<close>)
qed (use assms in \<open>cases t; simp_all add: is_double_def\<close>)+

subsection \<open>Sizes\<close>

text \<open>A sum of sizes that are not negative is a double that is not negative, and it is not
  below the value the sum started with; \<open>addMultiplierAndOverhead\<close> is monotone in the size
  for a multiplier that is positive and finite and an overhead that is neither \<open>NaN\<close> nor
  \<open>-Infinity\<close>.\<close>

lemma round64_0 [simp]: "round64 0 = Finite 0"
  by (simp add: round64_def)

lemma round64_nonneg: "0 \<le> x \<Longrightarrow> num_le (Finite 0) (round64 x)"
  using round64_mono[of 0 x] by simp

lemma fold_add_ge:
  assumes "is_double acc" "num_le (Finite 0) acc"
    "\<forall>m \<in> set ms. num_le (Finite 0) (sz m)"
  shows "num_le acc (fold (\<lambda>m acc. if keep m then num_add acc (sz m) else acc) ms acc) \<and>
         num_le (Finite 0) (fold (\<lambda>m acc. if keep m then num_add acc (sz m) else acc) ms acc) \<and>
         is_double (fold (\<lambda>m acc. if keep m then num_add acc (sz m) else acc) ms acc)"
  using assms
proof (induction ms arbitrary: acc)
  case Nil
  then show ?case by (cases acc) simp_all
next
  case (Cons m ms)
  show ?case
  proof (cases "keep m")
    case True
    have s: "num_le acc (num_add acc (sz m)) \<and> num_le (Finite 0) (num_add acc (sz m)) \<and>
             is_double (num_add acc (sz m))"
      using Cons.prems by (intro num_add_ge) simp_all
    then have "num_le (num_add acc (sz m))
                 (fold (\<lambda>m acc. if keep m then num_add acc (sz m) else acc) ms (num_add acc (sz m))) \<and>
         num_le (Finite 0) (fold (\<lambda>m acc. if keep m then num_add acc (sz m) else acc) ms (num_add acc (sz m))) \<and>
         is_double (fold (\<lambda>m acc. if keep m then num_add acc (sz m) else acc) ms (num_add acc (sz m)))"
      using Cons.prems by (intro Cons.IH) simp_all
    then show ?thesis using True s num_le_trans by auto
  next
    case False
    then show ?thesis using Cons.IH[of acc] Cons.prems by simp
  qed
qed

lemma getModulesSize_nonneg:
  assumes "\<forall>m \<in> set ms. num_le (Finite 0) (m_size (module_heap s m))"
  shows "num_le (Finite 0) (getModulesSize s ms) \<and> is_double (getModulesSize s ms)"
proof -
  have "is_double (Finite 0)" by (simp add: is_double_def)
  then show ?thesis
    using fold_add_ge[of "Finite 0" ms "\<lambda>m. m_size (module_heap s m)" "\<lambda>_. True"] assms
    by (simp add: getModulesSize_def)
qed

lemma multiplicator_not_zero: "multiplicator s a opts \<noteq> Finite 0 \<and> multiplicator s a opts \<noteq> NaN"
  by (simp add: multiplicator_def split: option.splits)

lemma num_mul_mono:
  assumes "num_le (Finite 0) p" "num_le p q" "0 < m"
  shows "num_le (num_mul p (Finite m)) (num_mul q (Finite m)) \<and>
         num_le (Finite 0) (num_mul p (Finite m))"
proof (cases p)
  case (Finite x)
  then have x: "0 \<le> x" using assms by simp
  show ?thesis
  proof (cases q)
    case (Finite y)
    then have "x * m \<le> y * m" using assms \<open>p = Finite x\<close> by simp
    then show ?thesis
      using Finite \<open>p = Finite x\<close> x assms(3) by (simp add: round64_mono round64_nonneg)
  next
    case PosInf
    have "round64 (x * m) \<noteq> NaN" by simp
    then have "num_le (round64 (x * m)) PosInf" by (cases "round64 (x * m)") simp_all
    then show ?thesis using PosInf \<open>p = Finite x\<close> x assms(3) by (simp add: round64_nonneg)
  qed (use assms \<open>p = Finite x\<close> in simp_all)
qed (use assms in \<open>cases q; simp_all\<close>)+

lemma num_add_mono:
  assumes "num_le (Finite 0) p" "num_le p q" "ov \<noteq> NaN" "ov \<noteq> NegInf"
  shows "num_le (num_add p ov) (num_add q ov)"
proof (cases ov)
  case (Finite z)
  show ?thesis
  proof (cases p)
    case p: (Finite x)
    show ?thesis
    proof (cases q)
      case (Finite y)
      then show ?thesis using p assms \<open>ov = Finite z\<close> by (simp add: round64_mono)
    next
      case PosInf
      have "round64 (x + z) \<noteq> NaN" by simp
      then have "num_le (round64 (x + z)) PosInf" by (cases "round64 (x + z)") simp_all
      then show ?thesis using PosInf p \<open>ov = Finite z\<close> by simp
    qed (use assms p in simp_all)
  qed (use assms Finite in \<open>cases q; simp_all\<close>)+
next
  case PosInf
  then show ?thesis using assms by (cases p; cases q) simp_all
qed (use assms in simp_all)

lemma addMultiplierAndOverhead_mono:
  assumes "num_le (Finite 0) p" "num_le p q"
    "num_le (Finite 0) (multiplicator s a opts)" "multiplicator s a opts \<noteq> PosInf"
    "overhead opts \<noteq> NaN" "overhead opts \<noteq> NegInf"
  shows "num_le (Chunk_addMultiplierAndOverhead s a p opts) (Chunk_addMultiplierAndOverhead s a q opts)"
proof -
  obtain m where m: "multiplicator s a opts = Finite m" "0 < m"
    using assms(3,4) multiplicator_not_zero[of s a opts]
    by (cases "multiplicator s a opts") auto
  have "num_le (num_mul p (Finite m)) (num_mul q (Finite m)) \<and>
         num_le (Finite 0) (num_mul p (Finite m))"
    using assms(1,2) m(2) by (rule num_mul_mono)
  then show ?thesis
    unfolding Chunk_addMultiplierAndOverhead_def m(1)
    using assms(5,6) by (intro num_add_mono) simp_all
qed

lemma addMultiplierAndOverhead_ge:
  assumes "is_double sz" "num_le (Finite 0) sz"
    "num_le (Finite 1) (multiplicator s a opts)" "multiplicator s a opts \<noteq> PosInf"
    "num_le (Finite 0) (overhead opts)"
  shows "num_le sz (Chunk_addMultiplierAndOverhead s a sz opts)"
proof -
  obtain m where m: "multiplicator s a opts = Finite m" "1 \<le> m"
    using assms(3,4) by (cases "multiplicator s a opts") auto
  have p: "num_le sz (num_mul sz (Finite m)) \<and> is_double (num_mul sz (Finite m))"
  proof (cases sz)
    case (Finite x)
    then have x: "0 \<le> x" "round64 x = Finite x" using assms(1,2) by (simp_all add: is_double_def)
    have "x * 1 \<le> x * m" using x(1) m(2) by (intro mult_left_mono) simp_all
    then have "num_le (round64 x) (round64 (x * m))" by (intro round64_mono) simp
    then show ?thesis using Finite x by simp
  qed (use assms m in \<open>simp_all add: is_double_def\<close>)
  then have "num_le (Finite 0) (num_mul sz (Finite m))"
    using assms(2) num_le_trans by blast
  then have "num_le (num_mul sz (Finite m)) (num_add (num_mul sz (Finite m)) (overhead opts))"
    using p assms(5) num_add_ge by blast
  then show ?thesis
    unfolding Chunk_addMultiplierAndOverhead_def m(1) using p num_le_trans by blast
qed

lemma addMultiplierAndOverhead_exact:
  assumes "multiplicator s a opts = Finite m" "overhead opts = Finite ov"
    "is_double (Finite (x * m))" "is_double (Finite (x * m + ov))"
  shows "Chunk_addMultiplierAndOverhead s a (Finite x) opts = Finite (x * m + ov)"
  using assms by (simp add: Chunk_addMultiplierAndOverhead_def is_double_def)

text \<open>The whole numbers below \<open>2^53\<close> are doubles.\<close>

lemma whole_is_double:
  assumes "n < 2 ^ 53"
  shows "is_double (Finite (real n))"
proof -
  have q: "quantum_exp (real n) \<le> 0"
  proof (cases "n = 0")
    case True
    then show ?thesis by (simp add: quantum_exp_def expo.simps)
  next
    case False
    then have pos: "0 < real n" by simp
    have "2 powi (expo (real n)) \<le> real n" using expo_bracket[OF pos] by simp
    also have "real n < 2 powi 53" using assms by (simp add: power_int_def flip: of_nat_less_iff)
    finally have "(2::real) powi (expo (real n)) < 2 powi 53" .
    then have "expo (real n) < 53" using p2_less_iff[of "expo (real n)" 53] by blast
    then show ?thesis by (simp add: quantum_exp_def)
  qed
  have "rnd (real n) = real n"
    by (rule rnd_exact[of _ "int n" 0]) (simp_all add: q)
  moreover have "real n < 2 ^ 1024"
  proof -
    have "real n < 2 ^ 53" using assms by (simp flip: of_nat_less_iff)
    also have "\<dots> \<le> (2::real) ^ 1024" by (intro power_increasing) simp_all
    finally show ?thesis .
  qed
  ultimately show ?thesis by (simp add: is_double_def round64_def)
qed


section \<open>The claims\<close>

subsection \<open>C1: accessibility of a module in a chunk group\<close>

text \<open>
  Claim C1. \<open>m.isAccessibleInChunkGroup(g, x)\<close> visits each group at most once, and at a
  visited group \<open>cg\<close> without a chunk (other than \<open>x\<close>) that contains \<open>m\<close> it fails when
  \<open>cg\<close> is initial and otherwise enqueues the parents of \<open>cg\<close>.

  The source tests \<open>chunkGroup.isInitial()\<close> and enqueues \<open>chunkGroup.parentsIterable\<close>,
  where \<open>chunkGroup\<close> is the argument \<open>g\<close> and not the visited group. In the sample graph
  module 9 is in no chunk. Started at the async group 1, the traversal visits group 1 and
  its parent, the entry point 0; neither has a chunk with the module, group 0 is initial,
  and still the source answers true, because it asks whether group 1 is initial. The
  traversal as the claim words it answers false.
\<close>

theorem isAccessibleInChunkGroup_initial_parent:
  "ChunkGroup_isInitial sample_graph 0 \<and>
   parents (group_at sample_graph 1) = [0] \<and>
   \<not> list_ex (\<lambda>chunk. Chunk_containsModule sample_graph chunk 9) (chunks (group_at sample_graph 0)) \<and>
   \<not> list_ex (\<lambda>chunk. Chunk_containsModule sample_graph chunk 9) (chunks (group_at sample_graph 1)) \<and>
   Module_isAccessibleInChunkGroup sample_graph 9 1 None = True \<and>
   isAccessibleInChunkGroup_spec sample_graph 9 1 None = False"
  by (simp add: Module_isAccessibleInChunkGroup_def isAccessibleInChunkGroup_spec_def
      isAccessibleInChunkGroup_queueFor.simps isAccessibleInChunkGroup_spec_loop.simps
      sample_graph_def eval_defs)

subsection \<open>C2: an entry module and canBeIntegrated\<close>

text \<open>
  Claim C2 says that \<open>a.canBeIntegrated(b)\<close> is false whenever \<open>a\<close> or \<open>b\<close> has an entry
  module, whether or not the two differ in initiality. When they differ, the source
  returns the result of \<open>isAvailable\<close> and never looks at the entry modules: in the sample
  graph chunk 0 is initial and has an entry module, chunk 1 is not initial and is reached
  only through the entry point of chunk 0, and chunk 0 can integrate chunk 1.
\<close>

theorem canBeIntegrated_entry_counterexample:
  "Chunk_hasEntryModule sample_graph 0 \<and> Chunk_canBeIntegrated sample_graph 0 1"
  by (simp add: sample_graph_def eval_defs Chunk_canBeIntegrated_def isAvailable_def
        isAvailable_loop.simps)

text \<open>
  Claim C2, amended: if \<open>a\<close> or \<open>b\<close> has an entry module and \<open>a.isInitial()\<close> equals
  \<open>b.isInitial()\<close>, then \<open>a.canBeIntegrated(b)\<close> is false.
\<close>

theorem canBeIntegrated_entry_same_initiality:
  assumes "Chunk_isInitial s a = Chunk_isInitial s b"
    and "Chunk_hasEntryModule s a \<or> Chunk_hasEntryModule s b"
  shows "\<not> Chunk_canBeIntegrated s a b"
  using assms by (simp add: Chunk_canBeIntegrated_def)

theorem canBeIntegrated_entry_same_initiality_witness:
  "Chunk_isInitial sample_graph 0 = Chunk_isInitial sample_graph 2 \<and>
   Chunk_hasEntryModule sample_graph 0 \<and> \<not> Chunk_canBeIntegrated sample_graph 0 2"
proof -
  have i: "Chunk_isInitial sample_graph 0 = Chunk_isInitial sample_graph 2"
    by (simp add: sample_graph_def eval_defs)
  have e: "Chunk_hasEntryModule sample_graph 0" by (simp add: sample_graph_def eval_defs)
  from canBeIntegrated_entry_same_initiality[OF i] e i show ?thesis by blast
qed

subsection \<open>C3: isInitial\<close>

text \<open>
  Claim C3 says that \<open>c.isInitial()\<close> is true if and only if some owning group of \<open>c\<close> is
  initial, in particular when a group other than the first one is. The source returns from
  inside the loop at the first group. The chunk of \<open>two_groups_graph\<close> is owned by an async
  group and by an initial group, in this order, and \<open>isInitial\<close> is false.
\<close>

theorem isInitial_later_group_counterexample:
  "Chunk_isInGroup two_groups_graph 0 1 \<and> ChunkGroup_isInitial two_groups_graph 1 \<and>
   \<not> Chunk_isInitial two_groups_graph 0"
  by (simp add: two_groups_graph_def eval_defs)

text \<open>
  Claim C3, amended: \<open>c.isInitial()\<close> is true if and only if \<open>c\<close> has an owning group and
  the first one in iteration order is initial; hence it is true only if some owning group
  of \<open>c\<close> is initial.
\<close>

theorem isInitial_first_group:
  "Chunk_isInitial s c =
     (\<exists>g rest. c_groups (chunk_heap s c) = g # rest \<and> ChunkGroup_isInitial s g) \<and>
   (Chunk_isInitial s c \<longrightarrow>
      (\<exists>g. Chunk_isInGroup s c g \<and> ChunkGroup_isInitial s g))"
  by (auto simp: Chunk_isInitial_def Chunk_isInGroup_def split: list.splits)

theorem isInitial_first_group_witness:
  "Chunk_isInitial sample_graph 0 \<and>
   (\<exists>g. Chunk_isInGroup sample_graph 0 g \<and> ChunkGroup_isInitial sample_graph g)"
proof -
  have h: "Chunk_isInitial sample_graph 0" by (simp add: sample_graph_def eval_defs)
  with isInitial_first_group[of sample_graph 0] show ?thesis by blast
qed

subsection \<open>C4: isUsed on a namespace module\<close>

text \<open>
  Claim C4 says that for the module with \<open>exportsType = "namespace"\<close>,
  \<open>providedExports = ["a","b"]\<close>, \<open>used = true\<close> and \<open>usedExports = ["b"]\<close>,
  \<open>isUsed("b")\<close> is the identifier for index 1, the position of \<open>"b"\<close> in
  \<open>providedExports\<close>. The source takes the index from \<open>usedExports\<close>, where \<open>"b"\<close> is at
  position 0. With the letter numbering the identifier for index 0 is \<open>"a"\<close>, that for
  index 1 is \<open>"b"\<close>.
\<close>

theorem isUsed_index_counterexample:
  "Module_isUsed numberToIdentifer namespace_module (Some ''b'') = Inr (JStr (numberToIdentifer 0)) \<and>
   Module_isUsed numberToIdentifer namespace_module (Some ''b'') \<noteq> Inr (JStr (numberToIdentifer 1))"
  by (simp add: Module_isUsed_def Module_isProvided_def namespace_module_def indexOf_def
      numberToIdentifer_def)

text \<open>
  Claim C4, amended: for such a module and every numbering of identifiers, \<open>isUsed("b")\<close>
  is the identifier for index 0, the position of \<open>"b"\<close> in \<open>usedExports\<close>, and
  \<open>isUsed("a")\<close> is \<open>false\<close>.
\<close>

theorem isUsed_namespace:
  assumes "used m = Some True"
    and "usedExports m = UsedList [''b'']"
    and "buildMeta m = Some bm"
    and "exportsType bm = Some ''namespace''"
    and "providedExports bm = ProvidedList [''a'', ''b'']"
  shows "Module_isUsed ident m (Some ''b'') = Inr (JStr (ident 0)) \<and>
         Module_isUsed ident m (Some ''a'') = Inr (JBool False)"
  using assms by (simp add: Module_isUsed_def Module_isProvided_def indexOf_def)

theorem isUsed_namespace_witness:
  "Module_isUsed numberToIdentifer namespace_module (Some ''b'') = Inr (JStr ''a'') \<and>
   Module_isUsed numberToIdentifer namespace_module (Some ''a'') = Inr (JBool False)"
  using isUsed_namespace[of namespace_module
      "\<lparr>exportsType = Some ''namespace'', providedExports = ProvidedList [''a'', ''b'']\<rparr>"
      numberToIdentifer]
  by (simp add: namespace_module_def numberToIdentifer_def)

subsection \<open>C5: integrate merges the other chunk into this one\<close>

text \<open>
  Claim C5 is stated for every pair of chunks. A chunk without entry module can be
  integrated into itself: \<open>integrate\<close> moves each module from the chunk to the chunk, then
  clears the module set of the other chunk, which is the chunk itself, and returns true.
  In the sample graph chunk 1 holds module 1 before \<open>integrate\<close> and no module after it.
\<close>

theorem integrate_self_counterexample:
  "Chunk_integrate sample_graph 1 1 = (True, snd (Chunk_integrate sample_graph 1 1)) \<and>
   Chunk_containsModule sample_graph 1 1 \<and>
   \<not> Chunk_containsModule (snd (Chunk_integrate sample_graph 1 1)) 1 1"
proof -
  have can: "Chunk_canBeIntegrated sample_graph 1 1"
    by (simp add: Chunk_canBeIntegrated_def sample_graph_def eval_defs)
  then have ok: "Chunk_integrate sample_graph 1 1 = (True, snd (Chunk_integrate sample_graph 1 1))"
    using integrate_fst[of sample_graph 1 1] by (simp add: prod_eq_iff)
  have "Chunk_containsModule sample_graph 1 1" by (simp add: sample_graph_def eval_defs)
  with ok integrate_other_empty[OF ok] show ?thesis by (simp add: Chunk_containsModule_def)
qed

text \<open>
  Claim C5, amended: let \<open>a\<close> and \<open>b\<close> be two different chunks of a graph whose edges are
  recorded on both sides, as section 3 of the spec requires: a module of \<open>b\<close> that lists
  \<open>a\<close> among its chunks is a member of \<open>a\<close>, and every group that owns \<open>b\<close> is a group of
  the graph and lists \<open>b\<close> among its chunks, once. If \<open>a.integrate(b)\<close> returns true, then
  afterwards \<open>b.isEmpty()\<close> holds, every module that was in \<open>b\<close> is in \<open>a\<close>, \<open>b\<close> has no
  owning group, every group that owned \<open>b\<close> owns \<open>a\<close> (on the chunk's side and on the
  group's side) and no longer holds \<open>b\<close>; and if both chunks had a name that is not empty,
  the name of \<open>a\<close> is one of the two, no longer than either, and on equal length the
  lexicographically smaller one.
\<close>

theorem integrate_merges:
  assumes ok: "Chunk_integrate s a b = (True, s')"
    and ne: "a \<noteq> b"
    and mc: "\<forall>m \<in> set (c_modules (chunk_heap s b)).
               Module_isInChunk s m a \<longrightarrow> Chunk_containsModule s a m"
    and cg: "\<forall>g \<in> set (c_groups (chunk_heap s b)).
               g < length (group_heap s) \<and> group_has_chunk s g b \<and> distinct (chunks (group_at s g))"
  shows "Chunk_isEmpty s' b \<and>
         (\<forall>m \<in> set (c_modules (chunk_heap s b)). Chunk_containsModule s' a m) \<and>
         c_groups (chunk_heap s' b) = [] \<and>
         (\<forall>g \<in> set (c_groups (chunk_heap s b)).
            Chunk_isInGroup s' a g \<and> group_has_chunk s' g a \<and> \<not> group_has_chunk s' g b) \<and>
         (\<forall>na nb. name (chunk_heap s a) = Some na \<and> name (chunk_heap s b) = Some nb \<and>
                   na \<noteq> [] \<and> nb \<noteq> [] \<longrightarrow>
            (\<exists>r. name (chunk_heap s' a) = Some r \<and> (r = na \<or> r = nb) \<and>
                  length r \<le> length na \<and> length r \<le> length nb \<and>
                  (length na = length nb \<longrightarrow> r \<le> na \<and> r \<le> nb)))"
proof -
  let ?ms = "c_modules (chunk_heap s b)" and ?gs = "c_groups (chunk_heap s b)"
  define s1 where "s1 = fold (\<lambda>modul st. Chunk_moveModule st b modul a) ?ms s"
  define s2 where "s2 = set_c_modules s1 b []"
  define s3 where "s3 = fold (integrate_group_step a b) (c_groups (chunk_heap s2 b)) s2"
  define s4 where "s4 = set_c_groups s3 b []"
  have s': "s' = set_name s4 a (integrate_name (name (chunk_heap s4 a)) (name (chunk_heap s4 b)))"
    using ok unfolding Chunk_integrate_def s1_def s2_def s3_def s4_def
    by (simp add: Let_def split: if_splits)
  note f1 = move_loop_frame[OF ne, of ?ms s, folded s1_def]
  have m1: "\<forall>m \<in> set ?ms. m \<in> set (c_modules (chunk_heap s1 a))"
    unfolding s1_def using mc
    by (intro move_loop_members[OF ne]) (simp add: Module_isInChunk_def Chunk_containsModule_def)
  have gs2: "c_groups (chunk_heap s2 b) = ?gs" using f1 by (simp add: s2_def setters)
  have gh2: "group_heap s2 = group_heap s" using f1 by (simp add: s2_def setters)
  have m2: "c_modules (chunk_heap s2 a) = c_modules (chunk_heap s1 a)"
    using ne by (simp add: s2_def setters)
  have n2: "name (chunk_heap s2 c) = name (chunk_heap s c)" for c
    using f1 by (simp add: s2_def setters)
  note f3 = group_loop_frame[of a b ?gs s2, folded s3_def[unfolded gs2]]
  have old2: "\<forall>g \<in> set ?gs. owns_old b s2 g \<or> owns_new a b s2 g"
    using cg gh2 group_at_cong[OF gh2] by (simp add: owns_old_def group_has_chunk_def)
  have o3: "\<forall>g \<in> set ?gs. owns_new a b s3 g"
    using group_loop_owns[OF ne old2] by (simp add: s3_def gs2)
  have gh': "group_heap s' = group_heap s3" by (simp add: s' s4_def setters)
  have ch': "c_modules (chunk_heap s' c) = c_modules (chunk_heap s4 c)"
            "c_groups (chunk_heap s' c) = c_groups (chunk_heap s4 c)" for c
    by (simp_all add: s' setters)
  have c4a: "chunk_heap s4 a = chunk_heap s3 a" using ne by (simp add: s4_def setters)
  have n4: "name (chunk_heap s4 c) = name (chunk_heap s c)" for c
    using f3 n2 by (simp add: s4_def setters)
  have e: "Chunk_isEmpty s' b \<and> c_groups (chunk_heap s' b) = []"
    using integrate_other_empty[OF ok] by (simp add: Chunk_isEmpty_def)
  have mem: "\<forall>m \<in> set ?ms. Chunk_containsModule s' a m"
    using m1 m2 f3 by (simp add: Chunk_containsModule_def ch' c4a)
  have grp: "\<forall>g \<in> set ?gs.
      Chunk_isInGroup s' a g \<and> group_has_chunk s' g a \<and> \<not> group_has_chunk s' g b"
  proof
    fix g assume g: "g \<in> set ?gs"
    have "g \<in> set (c_groups (chunk_heap s3 a))" using f3 g by blast
    then have "Chunk_isInGroup s' a g" by (simp add: Chunk_isInGroup_def ch' c4a)
    moreover have "owns_new a b s' g"
      using o3 g group_at_cong[OF gh'] by (simp add: owns_new_def)
    ultimately show "Chunk_isInGroup s' a g \<and> group_has_chunk s' g a \<and> \<not> group_has_chunk s' g b"
      by (simp add: owns_new_def group_has_chunk_def)
  qed
  have nm: "\<forall>na nb. name (chunk_heap s a) = Some na \<and> name (chunk_heap s b) = Some nb \<and>
                   na \<noteq> [] \<and> nb \<noteq> [] \<longrightarrow>
            (\<exists>r. name (chunk_heap s' a) = Some r \<and> (r = na \<or> r = nb) \<and>
                  length r \<le> length na \<and> length r \<le> length nb \<and>
                  (length na = length nb \<longrightarrow> r \<le> na \<and> r \<le> nb))"
  proof (intro allI impI)
    fix na nb
    assume h: "name (chunk_heap s a) = Some na \<and> name (chunk_heap s b) = Some nb \<and>
                   na \<noteq> [] \<and> nb \<noteq> []"
    have "name (chunk_heap s' a) = integrate_name (Some na) (Some nb)"
      using h n4 by (simp add: s' setters)
    then show "\<exists>r. name (chunk_heap s' a) = Some r \<and> (r = na \<or> r = nb) \<and>
                  length r \<le> length na \<and> length r \<le> length nb \<and>
                  (length na = length nb \<longrightarrow> r \<le> na \<and> r \<le> nb)"
      using integrate_name_shorter[of na nb] h by simp
  qed
  from e mem grp nm show ?thesis by blast
qed

theorem integrate_merges_witness:
  "Chunk_integrate sample_graph 2 3 = (True, snd (Chunk_integrate sample_graph 2 3)) \<and>
   Chunk_isEmpty (snd (Chunk_integrate sample_graph 2 3)) 3 \<and>
   Chunk_containsModule (snd (Chunk_integrate sample_graph 2 3)) 2 3 \<and>
   Chunk_isInGroup (snd (Chunk_integrate sample_graph 2 3)) 2 0 \<and>
   \<not> group_has_chunk (snd (Chunk_integrate sample_graph 2 3)) 0 3 \<and>
   name (chunk_heap (snd (Chunk_integrate sample_graph 2 3)) 2) = Some ''common''"
proof -
  let ?s' = "snd (Chunk_integrate sample_graph 2 3)"
  have can: "Chunk_canBeIntegrated sample_graph 2 3"
    by (simp add: Chunk_canBeIntegrated_def sample_graph_def eval_defs)
  then have ok: "Chunk_integrate sample_graph 2 3 = (True, ?s')"
    using integrate_fst[of sample_graph 2 3] by (simp add: prod_eq_iff)
  have ne: "(2::nat) \<noteq> 3" by simp
  have mc: "\<forall>m \<in> set (c_modules (chunk_heap sample_graph 3)).
               Module_isInChunk sample_graph m 2 \<longrightarrow> Chunk_containsModule sample_graph 2 m"
    by (simp add: sample_graph_def eval_defs)
  have cg: "\<forall>g \<in> set (c_groups (chunk_heap sample_graph 3)).
               g < length (group_heap sample_graph) \<and> group_has_chunk sample_graph g 3 \<and>
               distinct (chunks (group_at sample_graph g))"
    by (simp add: sample_graph_def eval_defs group_has_chunk_def)
  have ms: "3 \<in> set (c_modules (chunk_heap sample_graph 3))"
    and gs: "0 \<in> set (c_groups (chunk_heap sample_graph 3))"
    and na: "name (chunk_heap sample_graph 2) = Some ''vendor''"
    and nb: "name (chunk_heap sample_graph 3) = Some ''common''"
    by (simp_all add: sample_graph_def)
  note t = integrate_merges[OF ok ne mc cg]
  from t obtain r where r: "name (chunk_heap ?s' 2) = Some r" "r = ''vendor'' \<or> r = ''common''"
    "r \<le> ''vendor''" "r \<le> ''common''"
    using na nb by force
  from r have "r = ''common''" by auto
  with t ok ms gs r(1) show ?thesis by blast
qed

subsection \<open>C6: an infeasible merge is a negative answer\<close>

text \<open>
  Claim C6. If \<open>a.canBeIntegrated(b)\<close> is false, then \<open>a.integrate(b)\<close> returns \<open>false\<close> and
  leaves the graph as it was, and \<open>a.integratedSize(b, options)\<close> returns \<open>false\<close>; neither
  throws. (\<open>integratedSize\<close> has no write to the graph on any path; the memo cache of the
  module set, which it fills on the feasible path only, is not part of the store.)
\<close>

theorem infeasible_integrate_returns_false:
  assumes "\<not> Chunk_canBeIntegrated s a b"
  shows "Chunk_integrate s a b = (False, s) \<and> Chunk_integratedSize s a b opts = JBool False"
  using assms by (simp add: Chunk_integrate_def Chunk_integratedSize_def)

theorem infeasible_integrate_returns_false_witness:
  "\<not> Chunk_canBeIntegrated sample_graph 2 0 \<and>
   Chunk_integrate sample_graph 2 0 = (False, sample_graph) \<and>
   Chunk_integratedSize sample_graph 2 0 \<lparr>chunkOverhead = None, entryChunkMultiplicator = None\<rparr>
     = JBool False"
proof -
  have h: "\<not> Chunk_canBeIntegrated sample_graph 2 0"
    by (simp add: sample_graph_def eval_defs Chunk_canBeIntegrated_def)
  from infeasible_integrate_returns_false[OF h] h show ?thesis by blast
qed

subsection \<open>C7: monotonicity of the size estimate\<close>

text \<open>
  Claim C7 says that \<open>a.integratedSize(b, options) >= a.size(options)\<close> whenever \<open>b\<close> has a
  module that is not in \<open>a\<close> and the sizes are not negative, and that
  \<open>addMultiplierAndOverhead\<close> strictly increases a size that is not negative when overhead
  and multiplier are positive. These inputs show otherwise.
  \<^item> Chunk 0 has an entry module, so chunk 2 cannot integrate it and \<open>integratedSize\<close> is
    \<open>false\<close>, which is not \<open>>=\<close> the size 10700 of chunk 2.
  \<^item> With \<open>entryChunkMultiplicator = -1\<close> the initial chunk 2 has size 9930 and integrated
    with chunk 3 the size 9900.
  \<^item> With \<open>chunkOverhead = NaN\<close>, which is a number for \<open>typeof\<close>, both sizes are \<open>NaN\<close>
    and \<open>>=\<close> is false.
  \<^item> With \<open>chunkOverhead = -Infinity\<close> and the multiplier \<open>2^1023\<close> the product
    \<open>100 * 2^1023\<close> overflows to \<open>Infinity\<close> and the integrated size is \<open>NaN\<close>.
  \<^item> With the multiplier \<open>Infinity\<close> and modules of size 0 in chunk 2, the size of chunk 2 is
    \<open>0 * Infinity + 10000 = NaN\<close>.
  \<^item> With overhead 1 and multiplier \<open>1/2\<close> the size 100 becomes 51.
  \<^item> With overhead 1 and multiplier 1 the size \<open>2^53\<close> stays \<open>2^53\<close>, and with overhead
    \<open>2^-60\<close> the size 1 stays 1: the sum is rounded back, the increase is not strict.
\<close>

theorem integratedSize_counterexample:
  "\<not> Chunk_containsModule sample_graph 2 0 \<and> Chunk_containsModule sample_graph 0 0 \<and>
   Chunk_integratedSize sample_graph 2 0 default_options = JBool False \<and>
   Chunk_size sample_graph 2 default_options = Finite 10700 \<and>
   \<not> js_ge (Chunk_integratedSize sample_graph 2 0 default_options)
            (Chunk_size sample_graph 2 default_options) \<and>
   Chunk_canBeIntegrated sample_graph 2 3 \<and> \<not> Chunk_containsModule sample_graph 2 3 \<and>
   Chunk_integratedSize sample_graph 2 3
       \<lparr>chunkOverhead = None, entryChunkMultiplicator = Some (Finite (- 1))\<rparr> = JNum (Finite 9900) \<and>
   Chunk_size sample_graph 2
       \<lparr>chunkOverhead = None, entryChunkMultiplicator = Some (Finite (- 1))\<rparr> = Finite 9930 \<and>
   Chunk_integratedSize sample_graph 2 3
       \<lparr>chunkOverhead = Some NaN, entryChunkMultiplicator = None\<rparr> = JNum NaN \<and>
   \<not> js_ge (JNum NaN)
         (Chunk_size sample_graph 2 \<lparr>chunkOverhead = Some NaN, entryChunkMultiplicator = None\<rparr>) \<and>
   Chunk_integratedSize sample_graph 2 3
       \<lparr>chunkOverhead = Some NegInf, entryChunkMultiplicator = Some (Finite (2 ^ 1023))\<rparr> = JNum NaN \<and>
   Chunk_canBeIntegrated weightless_graph 2 3 \<and> \<not> Chunk_containsModule weightless_graph 2 3 \<and>
   Chunk_integratedSize weightless_graph 2 3
       \<lparr>chunkOverhead = None, entryChunkMultiplicator = Some PosInf\<rparr> = JNum PosInf \<and>
   Chunk_size weightless_graph 2
       \<lparr>chunkOverhead = None, entryChunkMultiplicator = Some PosInf\<rparr> = NaN \<and>
   \<not> js_ge (JNum PosInf) NaN \<and>
   Chunk_addMultiplierAndOverhead sample_graph 2 (Finite 100)
       \<lparr>chunkOverhead = Some (Finite 1), entryChunkMultiplicator = Some (Finite (1 / 2))\<rparr> = Finite 51 \<and>
   is_double (Finite (2 ^ 53)) \<and>
   Chunk_addMultiplierAndOverhead sample_graph 1 (Finite (2 ^ 53))
       \<lparr>chunkOverhead = Some (Finite 1), entryChunkMultiplicator = None\<rparr> = Finite (2 ^ 53) \<and>
   is_double (Finite (1 / 2 ^ 60)) \<and>
   Chunk_addMultiplierAndOverhead sample_graph 1 (Finite 1)
       \<lparr>chunkOverhead = Some (Finite (1 / 2 ^ 60)), entryChunkMultiplicator = None\<rparr> = Finite 1"
proof -
  have c70: "round64 70 = Finite 70" and c100: "round64 100 = Finite 100"
    by (simp_all add: num_eval)
  have big: "round64 (100 * 2 ^ 1023) = PosInf" by (rule round64_overflow) simp
  have can: "Chunk_canBeIntegrated sample_graph 2 3"
    by (simp add: Chunk_canBeIntegrated_def sample_graph_def eval_defs)
  have m: "multiplicator sample_graph 2
       \<lparr>chunkOverhead = Some NegInf, entryChunkMultiplicator = Some (Finite (2 ^ 1023))\<rparr>
     = Finite (2 ^ 1023)"
    by (simp add: multiplicator_def sample_graph_def eval_defs)
  have s: "Chunk_modulesSize sample_graph 2 = Finite 70"
    by (simp add: Chunk_modulesSize_def getModulesSize_def sample_graph_def eval_defs c70)
  have i: "fold (\<lambda>otherModule acc.
                   if otherModule \<notin> set (c_modules (chunk_heap sample_graph 2))
                   then num_add acc (m_size (module_heap sample_graph otherModule)) else acc)
             (c_modules (chunk_heap sample_graph 3)) (Finite 70) = Finite 100"
    by (simp add: sample_graph_def eval_defs c100)
  have overflow: "Chunk_integratedSize sample_graph 2 3
       \<lparr>chunkOverhead = Some NegInf, entryChunkMultiplicator = Some (Finite (2 ^ 1023))\<rparr> = JNum NaN"
    unfolding Chunk_integratedSize_def Chunk_addMultiplierAndOverhead_def Let_def m s i
    using can big by (simp add: overhead_def)
  have infeasible: "\<not> Chunk_containsModule sample_graph 2 0 \<and> Chunk_containsModule sample_graph 0 0 \<and>
     Chunk_integratedSize sample_graph 2 0 default_options = JBool False \<and>
     Chunk_size sample_graph 2 default_options = Finite 10700 \<and>
     \<not> js_ge (Chunk_integratedSize sample_graph 2 0 default_options)
              (Chunk_size sample_graph 2 default_options)"
    by (simp add: size_defs Chunk_canBeIntegrated_def sample_graph_def eval_defs num_eval)
  have negative: "\<not> Chunk_containsModule sample_graph 2 3 \<and>
     Chunk_integratedSize sample_graph 2 3
       \<lparr>chunkOverhead = None, entryChunkMultiplicator = Some (Finite (- 1))\<rparr> = JNum (Finite 9900) \<and>
     Chunk_size sample_graph 2
       \<lparr>chunkOverhead = None, entryChunkMultiplicator = Some (Finite (- 1))\<rparr> = Finite 9930"
    by (simp add: size_defs Chunk_canBeIntegrated_def sample_graph_def eval_defs num_eval)
  have nan: "Chunk_integratedSize sample_graph 2 3
       \<lparr>chunkOverhead = Some NaN, entryChunkMultiplicator = None\<rparr> = JNum NaN \<and>
     \<not> js_ge (JNum NaN)
         (Chunk_size sample_graph 2 \<lparr>chunkOverhead = Some NaN, entryChunkMultiplicator = None\<rparr>)"
    by (simp add: size_defs Chunk_canBeIntegrated_def sample_graph_def eval_defs num_eval)
  have inf: "Chunk_canBeIntegrated weightless_graph 2 3 \<and>
     \<not> Chunk_containsModule weightless_graph 2 3 \<and>
     Chunk_integratedSize weightless_graph 2 3
       \<lparr>chunkOverhead = None, entryChunkMultiplicator = Some PosInf\<rparr> = JNum PosInf \<and>
     Chunk_size weightless_graph 2
       \<lparr>chunkOverhead = None, entryChunkMultiplicator = Some PosInf\<rparr> = NaN \<and>
     \<not> js_ge (JNum PosInf) NaN"
    by (simp add: size_defs Chunk_canBeIntegrated_def weightless_graph_def sample_graph_def
        eval_defs num_eval)
  have half: "Chunk_addMultiplierAndOverhead sample_graph 2 (Finite 100)
       \<lparr>chunkOverhead = Some (Finite 1), entryChunkMultiplicator = Some (Finite (1 / 2))\<rparr> = Finite 51"
    by (simp add: size_defs sample_graph_def eval_defs num_eval)
  have absorbed: "is_double (Finite (2 ^ 53)) \<and>
     Chunk_addMultiplierAndOverhead sample_graph 1 (Finite (2 ^ 53))
       \<lparr>chunkOverhead = Some (Finite 1), entryChunkMultiplicator = None\<rparr> = Finite (2 ^ 53)"
    by (simp add: size_defs sample_graph_def eval_defs num_eval is_double_def)
  have tiny: "is_double (Finite (1 / 2 ^ 60)) \<and>
     Chunk_addMultiplierAndOverhead sample_graph 1 (Finite 1)
       \<lparr>chunkOverhead = Some (Finite (1 / 2 ^ 60)), entryChunkMultiplicator = None\<rparr> = Finite 1"
    by (simp add: size_defs sample_graph_def eval_defs num_eval is_double_def)
  from infeasible can negative nan overflow inf half absorbed tiny show ?thesis by blast
qed


text \<open>
  Claim C7, amended. If \<open>a.canBeIntegrated(b)\<close> holds, the sizes of the modules of \<open>a\<close> and
  of \<open>b\<close> are not negative, the multiplier applied to \<open>a\<close> is not negative and not
  \<open>Infinity\<close>, and the overhead is neither \<open>NaN\<close> nor \<open>-Infinity\<close>, then
  \<open>a.integratedSize(b, options)\<close> is a number and \<open>>= a.size(options)\<close>. For a size that is
  a double and not negative, a finite multiplier of at least 1 and an overhead that is not
  negative, the result of \<open>addMultiplierAndOverhead\<close> is \<open>>=\<close> the size. It is the exact
  value \<open>size * multiplier + overhead\<close>, and strictly above the size for a positive
  overhead, when the product and the sum are doubles, so that nothing is rounded.
\<close>

theorem integratedSize_monotone:
  "(Chunk_canBeIntegrated s a b \<and>
    (\<forall>m \<in> set (c_modules (chunk_heap s a)) \<union> set (c_modules (chunk_heap s b)).
        num_le (Finite 0) (m_size (module_heap s m))) \<and>
    num_le (Finite 0) (multiplicator s a opts) \<and> multiplicator s a opts \<noteq> PosInf \<and>
    overhead opts \<noteq> NaN \<and> overhead opts \<noteq> NegInf
    \<longrightarrow> (\<exists>v. Chunk_integratedSize s a b opts = JNum v \<and> num_le (Chunk_size s a opts) v) \<and>
        js_ge (Chunk_integratedSize s a b opts) (Chunk_size s a opts)) \<and>
   (is_double sz \<and> num_le (Finite 0) sz \<and>
    num_le (Finite 1) (multiplicator s a opts) \<and> multiplicator s a opts \<noteq> PosInf \<and>
    num_le (Finite 0) (overhead opts)
    \<longrightarrow> num_le sz (Chunk_addMultiplierAndOverhead s a sz opts)) \<and>
   (multiplicator s a opts = Finite m \<and> overhead opts = Finite ov \<and>
    0 \<le> x \<and> 1 \<le> m \<and> 0 < ov \<and>
    is_double (Finite (x * m)) \<and> is_double (Finite (x * m + ov))
    \<longrightarrow> Chunk_addMultiplierAndOverhead s a (Finite x) opts = Finite (x * m + ov) \<and>
        num_lt (Finite x) (Chunk_addMultiplierAndOverhead s a (Finite x) opts))"
proof (intro conjI impI)
  assume h: "Chunk_canBeIntegrated s a b \<and>
    (\<forall>m \<in> set (c_modules (chunk_heap s a)) \<union> set (c_modules (chunk_heap s b)).
        num_le (Finite 0) (m_size (module_heap s m))) \<and>
    num_le (Finite 0) (multiplicator s a opts) \<and> multiplicator s a opts \<noteq> PosInf \<and>
    overhead opts \<noteq> NaN \<and> overhead opts \<noteq> NegInf"
  let ?v = "fold (\<lambda>otherModule acc.
                    if otherModule \<notin> set (c_modules (chunk_heap s a))
                    then num_add acc (m_size (module_heap s otherModule)) else acc)
              (c_modules (chunk_heap s b)) (Chunk_modulesSize s a)"
  have own: "num_le (Finite 0) (Chunk_modulesSize s a) \<and> is_double (Chunk_modulesSize s a)"
    unfolding Chunk_modulesSize_def using h by (intro getModulesSize_nonneg) simp
  have ge: "num_le (Chunk_modulesSize s a) ?v"
    using fold_add_ge[of "Chunk_modulesSize s a" "c_modules (chunk_heap s b)"
        "\<lambda>m. m_size (module_heap s m)" "\<lambda>m. m \<notin> set (c_modules (chunk_heap s a))"] own h
    by simp
  have eq: "Chunk_integratedSize s a b opts = JNum (Chunk_addMultiplierAndOverhead s a ?v opts)"
    using h by (simp add: Chunk_integratedSize_def)
  have le: "num_le (Chunk_size s a opts) (Chunk_addMultiplierAndOverhead s a ?v opts)"
    unfolding Chunk_size_def using own ge h by (intro addMultiplierAndOverhead_mono) simp_all
  from eq le show "\<exists>v. Chunk_integratedSize s a b opts = JNum v \<and> num_le (Chunk_size s a opts) v"
    by blast
  from eq le show "js_ge (Chunk_integratedSize s a b opts) (Chunk_size s a opts)"
    by (simp add: js_ge_def)
next
  assume "is_double sz \<and> num_le (Finite 0) sz \<and>
    num_le (Finite 1) (multiplicator s a opts) \<and> multiplicator s a opts \<noteq> PosInf \<and>
    num_le (Finite 0) (overhead opts)"
  then show "num_le sz (Chunk_addMultiplierAndOverhead s a sz opts)"
    by (intro addMultiplierAndOverhead_ge) simp_all
next
  assume h: "multiplicator s a opts = Finite m \<and> overhead opts = Finite ov \<and>
    0 \<le> x \<and> 1 \<le> m \<and> 0 < ov \<and>
    is_double (Finite (x * m)) \<and> is_double (Finite (x * m + ov))"
  then show e: "Chunk_addMultiplierAndOverhead s a (Finite x) opts = Finite (x * m + ov)"
    by (intro addMultiplierAndOverhead_exact) simp_all
  have "x * 1 \<le> x * m" using h by (intro mult_left_mono) simp_all
  then show "num_lt (Finite x) (Chunk_addMultiplierAndOverhead s a (Finite x) opts)"
    using h by (simp add: e)
qed


theorem integratedSize_monotone_witness:
  "Chunk_canBeIntegrated sample_graph 2 3 \<and>
   multiplicator sample_graph 2 default_options = Finite 10 \<and>
   overhead default_options = Finite 10000 \<and>
   is_double (Finite 100) \<and>
   js_ge (Chunk_integratedSize sample_graph 2 3 default_options)
         (Chunk_size sample_graph 2 default_options) \<and>
   num_le (Finite 100) (Chunk_addMultiplierAndOverhead sample_graph 2 (Finite 100) default_options) \<and>
   Chunk_addMultiplierAndOverhead sample_graph 2 (Finite 100) default_options = Finite 11000 \<and>
   num_lt (Finite 100) (Chunk_addMultiplierAndOverhead sample_graph 2 (Finite 100) default_options)"
proof -
  have can: "Chunk_canBeIntegrated sample_graph 2 3"
    by (simp add: Chunk_canBeIntegrated_def sample_graph_def eval_defs)
  have sz: "\<forall>m \<in> set (c_modules (chunk_heap sample_graph 2)) \<union>
               set (c_modules (chunk_heap sample_graph 3)).
              num_le (Finite 0) (m_size (module_heap sample_graph m))"
    by (simp add: sample_graph_def eval_defs)
  have m: "multiplicator sample_graph 2 default_options = Finite 10"
    by (simp add: multiplicator_def default_options_def sample_graph_def eval_defs)
  have ov: "overhead default_options = Finite 10000"
    by (simp add: overhead_def default_options_def)
  have d: "is_double (Finite 100)" "is_double (Finite (100 * 10))"
    "is_double (Finite (100 * 10 + 10000))"
    by (simp_all add: is_double_def num_eval)
  show ?thesis
    using integratedSize_monotone[of sample_graph 2 3 default_options "Finite 100" 10 10000 100]
      can sz m ov d by simp
qed

subsection \<open>C8: getNumberOfGroups\<close>

text \<open>
  Claim C8. \<open>c.getNumberOfGroups()\<close> reads the property \<open>siz\<close> of the group set, which
  the set does not have, so it returns \<open>undefined\<close> for every chunk and never the number of
  groups; \<open>getNumberOfModules\<close>, which reads \<open>size\<close>, returns the number of modules.
\<close>

theorem getNumberOfGroups_undefined:
  "Chunk_getNumberOfGroups c = JUndefined \<and>
   Chunk_getNumberOfGroups c \<noteq> JNum (Finite (real (length (c_groups c)))) \<and>
   Chunk_getNumberOfModules c = JNum (Finite (real (length (c_modules c))))"
  by (simp add: Chunk_getNumberOfGroups_def Chunk_getNumberOfModules_def SortableSet_get_def)

subsection \<open>C9: removed accessors\<close>

text \<open>
  Claim C9 says that reading and writing each removed accessor fails with an error whose
  message names the still-supported replacement operation. The two messages of
  \<open>Module.arguments\<close> name none: they do not say what to use, they say that there is no
  replacement.
\<close>

theorem removed_accessor_no_replacement_counterexample:
  "removed_accessor Module_arguments Read =
     Inl (Error ''Module.arguments was removed, there is no replacement.'') \<and>
   removed_accessor Module_arguments Write =
     Inl (Error ''Module.arguments was removed, there is no replacement.'') \<and>
   \<not> sublist ''Use'' ''Module.arguments was removed, there is no replacement.'' \<and>
   named_replacement ''Module.arguments was removed, there is no replacement.'' = None"
  by (simp add: sublist_Cons_right named_replacement_def)

text \<open>
  Claim C9, amended: reading and writing each removed accessor fails at once, in every
  state, with an error. For \<open>Module.entry\<close>, \<open>Chunk.entry\<close>, \<open>Chunk.initial\<close> and
  \<open>Chunk.entrypoints\<close> the message says to use an operation that the source of \<open>Chunk\<close>
  still defines (\<open>Chunk.entryModule\<close>, \<open>hasRuntime()\<close>, \<open>isInitial()\<close>, \<open>groupsIterable\<close>
  and \<open>addGroup\<close>). For \<open>Chunk.chunks\<close>, \<open>Chunk.parents\<close> and \<open>Chunk.blocks\<close> the message
  says to use operations of \<open>ChunkGroup\<close> (\<open>getChildren()\<close>, \<open>addChild\<close> and
  \<open>removeChild\<close>, and the same for parents and blocks); they are still supported if
  \<open>ChunkGroup\<close>, which is not among the sources, defines them. For \<open>Module.arguments\<close> the
  message names no replacement and says that there is none.
\<close>

theorem removed_accessor_fails:
  "\<exists>msg. removed_accessor a k = Inl (Error msg) \<and>
     (case named_replacement msg of
        None \<Rightarrow> a = Module_arguments \<and> sublist ''there is no replacement'' msg
      | Some r \<Rightarrow>
          a \<noteq> Module_arguments \<and>
          (owner r = Chunk_class)
            = (a \<in> {Module_entry, Chunk_entry, Chunk_initial, Chunk_entrypoints}) \<and>
          (owner r = Chunk_class \<longrightarrow> supported chunkGroupMembers r) \<and>
          (owner r = ChunkGroup_class \<longrightarrow> set (operations r) \<subseteq> set ChunkGroup_named) \<and>
          (set ChunkGroup_named \<subseteq> set chunkGroupMembers \<longrightarrow> supported chunkGroupMembers r))"
  by (cases a; cases k;
      simp add: sublist_Cons_right named_replacement_def qualifier_of_def member_of_def
        operations_of_def class_of_def suffix_def supported_def Chunk_members_def
        ChunkGroup_named_def)

theorem removed_accessor_fails_witness:
  "removed_accessor Chunk_initial Write =
     Inl (Error ''Chunk.initial was removed. Use isInitial()'') \<and>
   named_replacement ''Chunk.initial was removed. Use isInitial()'' =
     Some \<lparr>written = ''isInitial()'', owner = Chunk_class, operations = [''isInitial'']\<rparr> \<and>
   supported [] \<lparr>written = ''isInitial()'', owner = Chunk_class, operations = [''isInitial'']\<rparr> \<and>
   removed_accessor Chunk_chunks Write =
     Inl (Error ''Chunk.chunks: Use ChunkGroup.add/removeChild() instead'') \<and>
   named_replacement ''Chunk.chunks: Use ChunkGroup.add/removeChild() instead'' =
     Some \<lparr>written = ''ChunkGroup.add/removeChild()'', owner = ChunkGroup_class,
           operations = [''addChild'', ''removeChild'']\<rparr> \<and>
   supported ChunkGroup_named
     \<lparr>written = ''ChunkGroup.add/removeChild()'', owner = ChunkGroup_class,
      operations = [''addChild'', ''removeChild'']\<rparr>"
proof -
  have n1: "named_replacement ''Chunk.initial was removed. Use isInitial()'' =
     Some \<lparr>written = ''isInitial()'', owner = Chunk_class, operations = [''isInitial'']\<rparr>"
    by (simp add: named_replacement_def qualifier_of_def member_of_def operations_of_def
        class_of_def suffix_def)
  have n2: "named_replacement ''Chunk.chunks: Use ChunkGroup.add/removeChild() instead'' =
     Some \<lparr>written = ''ChunkGroup.add/removeChild()'', owner = ChunkGroup_class,
           operations = [''addChild'', ''removeChild'']\<rparr>"
    by (simp add: named_replacement_def qualifier_of_def member_of_def operations_of_def
        class_of_def suffix_def)
  from removed_accessor_fails[of Chunk_initial Write "[]"]
    removed_accessor_fails[of Chunk_chunks Write ChunkGroup_named] n1 n2
  show ?thesis by simp
qed

subsection \<open>C10: remove leaves the chunk's own group set alone\<close>

text \<open>
  Claim C10 says that after \<open>c.remove()\<close> the chunk has no module, for every chunk \<open>c\<close>
  with an owning group. \<open>remove\<close> calls \<open>module.removeChunk(this)\<close> for each member, and
  that call takes the module out of the chunk only when the module lists the chunk. After
  \<open>c1.addModule(m0)\<close> on the sample graph chunk 1 holds the modules 1 and 0, module 0 does
  not list chunk 1, and \<open>remove\<close> leaves module 0 in the chunk.
\<close>

theorem remove_one_sided_counterexample:
  "Chunk_isInGroup lopsided_graph 1 1 \<and>
   c_modules (chunk_heap lopsided_graph 1) = [1, 0] \<and>
   \<not> Module_isInChunk lopsided_graph 0 1 \<and>
   c_modules (chunk_heap (Chunk_remove lopsided_graph 1) 1) = [0] \<and>
   \<not> Chunk_isEmpty (Chunk_remove lopsided_graph 1) 1"
proof -
  have ch: "chunk_heap (Chunk_remove lopsided_graph 1) =
            chunk_heap (fold (remove_module_step 1) (c_modules (chunk_heap lopsided_graph 1))
                          lopsided_graph)"
    by (simp add: Chunk_remove_def Let_def)
  have ms: "c_modules (chunk_heap lopsided_graph 1) = [1, 0]"
    by (simp add: lopsided_graph_def Chunk_addModule_def setters sample_graph_def eval_defs)
  have l1: "Module_isInChunk lopsided_graph 1 1" and l0: "\<not> Module_isInChunk lopsided_graph 0 1"
    by (simp_all add: lopsided_graph_def Chunk_addModule_def setters sample_graph_def eval_defs)
  have g: "Chunk_isInGroup lopsided_graph 1 1"
    by (simp add: lopsided_graph_def Chunk_addModule_def setters sample_graph_def eval_defs)
  have "c_modules (chunk_heap (fold (remove_module_step 1) [1, 0] lopsided_graph) 1) =
          filter (\<lambda>m. \<not> (m \<in> set [1, 0] \<and> 1 \<in> set (m_chunks (module_heap lopsided_graph m))))
            (c_modules (chunk_heap lopsided_graph 1))"
    using remove_module_loop[of 1 "[1, 0]" lopsided_graph] by blast
  also have "\<dots> = [0]"
    unfolding ms using l1 l0 by (simp add: Module_isInChunk_def)
  finally have r: "c_modules (chunk_heap (Chunk_remove lopsided_graph 1) 1) = [0]"
    unfolding ch ms .
  from g ms l0 r show ?thesis by (simp add: Chunk_isEmpty_def)
qed

text \<open>
  Claim C10, amended: for every chunk \<open>c\<close> with a non-empty owning-group set whose member
  modules all have \<open>c\<close> in their chunk set (the symmetry of section 3 of the spec), after
  \<open>c.remove()\<close> the chunk's member-module set is empty. Without that premise the chunk
  keeps exactly those members that did not have \<open>c\<close> in their chunk set. In either case
  no former member module has \<open>c\<close> in its chunk set, and the chunk's own owning-group set
  is left unchanged: \<open>c.isInGroup(g)\<close> is still true for every group \<open>g\<close> that owned \<open>c\<close>
  (\<open>ChunkGroup.removeChunk\<close>, modelled from the spec, writes to the group only).
\<close>

theorem remove_keeps_groups:
  "((\<forall>m \<in> set (c_modules (chunk_heap s c)). Module_isInChunk s m c)
      \<longrightarrow> Chunk_isEmpty (Chunk_remove s c) c) \<and>
   (\<forall>m. Chunk_containsModule (Chunk_remove s c) c m
          = (Chunk_containsModule s c m \<and> \<not> Module_isInChunk s m c)) \<and>
   (\<forall>m \<in> set (c_modules (chunk_heap s c)). \<not> Module_isInChunk (Chunk_remove s c) m c) \<and>
   c_groups (chunk_heap (Chunk_remove s c) c) = c_groups (chunk_heap s c) \<and>
   (\<forall>g. Chunk_isInGroup s c g \<longrightarrow> Chunk_isInGroup (Chunk_remove s c) c g)"
proof -
  let ?ms = "c_modules (chunk_heap s c)"
  define s1 where "s1 = fold (remove_module_step c) ?ms s"
  note l = remove_module_loop[of c ?ms s, folded s1_def]
  have ch: "chunk_heap (Chunk_remove s c) = chunk_heap s1"
    and mh: "module_heap (Chunk_remove s c) = module_heap s1"
    by (simp_all add: Chunk_remove_def Let_def s1_def)
  have k: "c_modules (chunk_heap s1 c) =
           filter (\<lambda>m. \<not> (m \<in> set ?ms \<and> c \<in> set (m_chunks (module_heap s m)))) ?ms"
    using l by simp
  have e: "(\<forall>m \<in> set ?ms. Module_isInChunk s m c) \<longrightarrow> c_modules (chunk_heap s1 c) = []"
    by (simp add: k Module_isInChunk_def filter_empty_conv)
  have x: "\<forall>m. (m \<in> set (c_modules (chunk_heap s1 c)))
               = (m \<in> set ?ms \<and> c \<notin> set (m_chunks (module_heap s m)))"
    by (auto simp: k)
  have g: "c_groups (chunk_heap s1 c) = c_groups (chunk_heap s c)" using l by simp
  have m: "\<forall>m \<in> set ?ms. c \<notin> set (m_chunks (module_heap s1 m))" using l by simp
  from e x g m show ?thesis
    by (simp add: Chunk_isEmpty_def Module_isInChunk_def Chunk_isInGroup_def
        Chunk_containsModule_def ch mh)
qed

theorem remove_keeps_groups_witness:
  "Module_isInChunk sample_graph 3 3 \<and> Module_isInChunk sample_graph 2 3 \<and>
   Chunk_isInGroup sample_graph 3 0 \<and>
   Chunk_isEmpty (Chunk_remove sample_graph 3) 3 \<and>
   \<not> Module_isInChunk (Chunk_remove sample_graph 3) 2 3 \<and>
   Chunk_isInGroup (Chunk_remove sample_graph 3) 3 0"
proof -
  have h: "\<forall>m \<in> set (c_modules (chunk_heap sample_graph 3)). Module_isInChunk sample_graph m 3"
    by (simp add: sample_graph_def eval_defs)
  have g: "Chunk_isInGroup sample_graph 3 0" by (simp add: sample_graph_def eval_defs)
  have m: "2 \<in> set (c_modules (chunk_heap sample_graph 3))" by (simp add: sample_graph_def)
  have i: "Module_isInChunk sample_graph 3 3 \<and> Module_isInChunk sample_graph 2 3"
    by (simp add: sample_graph_def eval_defs)
  from remove_keeps_groups[of s c for s c, of sample_graph 3] h i g m show ?thesis by blast
qed

end
